theory Spec2Isabelle
  imports Main
begin

section \<open>Go strings\<close>

text \<open>
  A Go string is a sequence of bytes, modelled as \<^typ>\<open>string\<close> (a list of 8-bit
  characters). The functions of package \<open>strings\<close> that \<open>pkg/config/module.go\<close> and the
  lint-file parser call are written out here on bytes, with Go's names.
\<close>

subsection \<open>strings.TrimSpace\<close>

text \<open>
  \<open>TrimSpace\<close> removes leading and trailing white space as \<open>unicode.IsSpace\<close> defines it.
  On bytes these are the six ASCII characters tab, line feed, vertical tab, form feed,
  carriage return and space, and the UTF-8 encodings of U+0085, U+00A0 (two bytes) and of
  U+1680, U+2000 to U+200A, U+2028, U+2029, U+202F, U+205F, U+3000 (three bytes). A byte
  sequence that is not a valid encoding decodes to the replacement rune, which is not white
  space.
\<close>

definition asciiSpace :: "char \<Rightarrow> bool" where
  "asciiSpace c \<longleftrightarrow>
     c = CHR 0x09 \<or> c = CHR 0x0A \<or> c = CHR 0x0B \<or> c = CHR 0x0C \<or> c = CHR 0x0D \<or> c = CHR 0x20"

definition space2 :: "char \<Rightarrow> char \<Rightarrow> bool" where
  "space2 c d \<longleftrightarrow> c = CHR 0xC2 \<and> (d = CHR 0x85 \<or> d = CHR 0xA0)"

definition space3 :: "char \<Rightarrow> char \<Rightarrow> char \<Rightarrow> bool" where
  "space3 c d e \<longleftrightarrow>
     (c = CHR 0xE1 \<and> d = CHR 0x9A \<and> e = CHR 0x80) \<or>
     (c = CHR 0xE2 \<and> d = CHR 0x80 \<and>
        (e = CHR 0x80 \<or> e = CHR 0x81 \<or> e = CHR 0x82 \<or> e = CHR 0x83 \<or> e = CHR 0x84 \<or>
         e = CHR 0x85 \<or> e = CHR 0x86 \<or> e = CHR 0x87 \<or> e = CHR 0x88 \<or> e = CHR 0x89 \<or>
         e = CHR 0x8A \<or> e = CHR 0xA8 \<or> e = CHR 0xA9 \<or> e = CHR 0xAF)) \<or>
     (c = CHR 0xE2 \<and> d = CHR 0x81 \<and> e = CHR 0x9F) \<or>
     (c = CHR 0xE3 \<and> d = CHR 0x80 \<and> e = CHR 0x80)"

text \<open>Bytes \<open>0x80\<close> to \<open>0xBF\<close> continue a UTF-8 encoding; no encoding starts with one.\<close>

definition contByte :: "char \<Rightarrow> bool" where
  "contByte c \<longleftrightarrow> 128 \<le> (of_char c :: nat) \<and> (of_char c :: nat) < 192"

text \<open>\<open>TrimLeftFunc(s, unicode.IsSpace)\<close>: drop white-space runes from the front.\<close>

fun TrimLeftSpace :: "string \<Rightarrow> string" where
  "TrimLeftSpace [] = []"
| "TrimLeftSpace [c] = (if asciiSpace c then [] else [c])"
| "TrimLeftSpace [c, d] =
     (if asciiSpace c then TrimLeftSpace [d]
      else if space2 c d then []
      else [c, d])"
| "TrimLeftSpace (c # d # e # s) =
     (if asciiSpace c then TrimLeftSpace (d # e # s)
      else if space2 c d then TrimLeftSpace (e # s)
      else if space3 c d e then TrimLeftSpace s
      else c # d # e # s)"

text \<open>
  \<open>TrimRightFunc(s, unicode.IsSpace)\<close>: drop white-space runes from the back. The function
  below works on the reversed string, so a rune's last byte comes first.
\<close>

fun TrimRightSpaceRev :: "string \<Rightarrow> string" where
  "TrimRightSpaceRev [] = []"
| "TrimRightSpaceRev [e] = (if asciiSpace e then [] else [e])"
| "TrimRightSpaceRev [e, d] =
     (if asciiSpace e then TrimRightSpaceRev [d]
      else if space2 d e then []
      else [e, d])"
| "TrimRightSpaceRev (e # d # c # r) =
     (if asciiSpace e then TrimRightSpaceRev (d # c # r)
      else if space2 d e then TrimRightSpaceRev (c # r)
      else if space3 c d e then TrimRightSpaceRev r
      else e # d # c # r)"

definition TrimRightSpace :: "string \<Rightarrow> string" where
  "TrimRightSpace s = rev (TrimRightSpaceRev (rev s))"

definition TrimSpace :: "string \<Rightarrow> string" where
  "TrimSpace s = TrimRightSpace (TrimLeftSpace s)"

subsection \<open>strings.TrimPrefix, HasSuffix, Split, Join, Cut\<close>

definition HasPrefix :: "string \<Rightarrow> string \<Rightarrow> bool" where
  "HasPrefix s prefix \<longleftrightarrow> length prefix \<le> length s \<and> take (length prefix) s = prefix"

definition TrimPrefix :: "string \<Rightarrow> string \<Rightarrow> string" where
  "TrimPrefix s prefix = (if HasPrefix s prefix then drop (length prefix) s else s)"

definition HasSuffix :: "string \<Rightarrow> string \<Rightarrow> bool" where
  "HasSuffix s suffix \<longleftrightarrow>
     length suffix \<le> length s \<and> drop (length s - length suffix) s = suffix"

text \<open>
  \<open>strings.Split(s, sep)\<close> for a separator of one byte (the code splits at \<open>"/"\<close>): the
  pieces between the separators, one more than there are separators; the empty string
  gives one empty piece.
\<close>

fun Split :: "string \<Rightarrow> char \<Rightarrow> string list" where
  "Split [] sep = [[]]"
| "Split (c # s) sep =
     (if c = sep then [] # Split s sep
      else (case Split s sep of
              [] \<Rightarrow> [[c]]
            | x # xs \<Rightarrow> (c # x) # xs))"

text \<open>\<open>strings.Join(elems, sep)\<close>.\<close>

fun Join :: "string list \<Rightarrow> string \<Rightarrow> string" where
  "Join [] sep = []"
| "Join [x] sep = x"
| "Join (x # y # ys) sep = x @ sep @ Join (y # ys) sep"

text \<open>
  \<open>strings.Cut(s, sep)\<close> for a separator of one byte: the text before the first separator,
  the text after it, and whether the separator occurs; without a separator the result is
  \<open>(s, "", false)\<close>.
\<close>

definition Cut :: "string \<Rightarrow> char \<Rightarrow> string \<times> string \<times> bool" where
  "Cut s sep =
     (if sep \<in> set s then (takeWhile (\<lambda>c. c \<noteq> sep) s, drop 1 (dropWhile (\<lambda>c. c \<noteq> sep) s), True)
      else (s, [], False))"

section \<open>Module declarations (pkg/config/module.go)\<close>

text \<open>
  The value \<open>any\<close> of a decoded JSON document. The functions below only pass such values
  on, so a number is kept as an integer.
\<close>

datatype json =
  JNull
| JBool bool
| JNumber int
| JString string
| JArray "json list"
| JObject "(string \<times> json) list"

record ModuleArchive =
  Type :: string
  Host :: string
  RepoOwner :: string
  RepoName :: string
  Ref :: string
  Tag :: string

record ModuleGlob =
  ID :: string
  SlashPath :: string
  Archive :: "ModuleArchive option"
  ModuleGlob_Config :: "(string \<times> json) list option"
  Excluded :: bool

text \<open>
  \<open>fullCommitHashPattern = regexp.MustCompile("[a-fA-F0-9]{40}")\<close>. The pattern has no
  anchors, and \<open>MatchString\<close> reports whether the string contains any match: forty
  consecutive hexadecimal digits starting at some position.
\<close>

definition hexDigit :: "char \<Rightarrow> bool" where
  "hexDigit c \<longleftrightarrow>
     (let n = (of_char c :: nat) in
        (97 \<le> n \<and> n \<le> 102) \<or> (65 \<le> n \<and> n \<le> 70) \<or> (48 \<le> n \<and> n \<le> 57))"

fun fullCommitHashPattern_MatchString :: "string \<Rightarrow> bool" where
  "fullCommitHashPattern_MatchString [] = False"
| "fullCommitHashPattern_MatchString (c # s) =
     ((40 \<le> length (c # s) \<and> list_all hexDigit (take 40 (c # s)))
      \<or> fullCommitHashPattern_MatchString s)"

text \<open>An \<open>error\<close> is modelled by its message; \<open>None\<close> is Go's \<open>nil\<close>.\<close>

definition validateRef :: "string \<Rightarrow> string option" where
  "validateRef ref =
     (if fullCommitHashPattern_MatchString ref then None
      else Some ''ref must be full commit hash'')"

text \<open>
  \<open>ParseModuleLine\<close>. \<open>elems[:3]\<close> and \<open>elems[3:]\<close> are \<open>take 3\<close> and \<open>drop 3\<close>; the length
  check before them makes \<open>elems[0]\<close>, \<open>elems[1]\<close>, \<open>elems[2]\<close> defined. The \<open>append\<close> onto
  \<open>elems[:3]\<close> may overwrite \<open>elems[3]\<close> and \<open>elems[4]\<close> of the shared array, which are not
  read afterwards.
\<close>

definition ParseModuleLine :: "string \<Rightarrow> string + ModuleGlob" where
  "ParseModuleLine line0 =
     (let line1 = TrimSpace line0;
          l = TrimPrefix line1 ''!'';
          excluded = (l \<noteq> line1);
          line = (if l \<noteq> line1 then TrimSpace l else line1);
          elems = Split line CHR ''/''
      in if length elems < 4 then Inl ''line is invalid''
         else if elems ! 0 \<noteq> ''github.com'' then Inl (''module must start with 'github.com/'' @ [CHR 0x27])
         else
           let pathAndRefAndTag = Join (drop 3 elems) ''/'';
               (path, refAndTag, ok) = Cut pathAndRefAndTag CHR ''@''
           in if \<not> ok then Inl ''ref is required''
              else
                let (ref, tag, _) = Cut refAndTag CHR '':''
                in case validateRef ref of
                     Some err \<Rightarrow> Inl err
                   | None \<Rightarrow>
                       Inr \<lparr> ID = line,
                             SlashPath = Join (take 3 elems @ [ref, path]) ''/'',
                             Archive = Some \<lparr> Type = ''github'', Host = ''github.com'',
                                              RepoOwner = elems ! 1, RepoName = elems ! 2,
                                              Ref = ref, Tag = tag \<rparr>,
                             ModuleGlob_Config = None,
                             Excluded = excluded \<rparr>)"

section \<open>Evaluating lint files (LintFileParser, LintFileEvaluator)\<close>

text \<open>
  The structures of packages \<open>config\<close> and \<open>domain\<close> that the parser and the evaluator
  use, with the fields the code reads and writes. A \<open>map[string]any\<close> is an association
  list, \<open>None\<close> when the map is \<open>nil\<close>; a value of type \<open>any\<close> is a \<^typ>\<open>json\<close>, \<open>JNull\<close>
  when it is \<open>nil\<close>; a \<open>nil\<close> slice is the empty list; an error string is empty when there
  is no error. The type \<open>'ast\<close> is \<open>jsonnet.Node\<close>, a parsed lint file, and \<open>'r\<close> is
  \<open>*domain.JsonnetResult\<close>, one decoded entry of a lint file's output.
\<close>

record LintFile =
  LintFile_ID :: string
  LintFile_Path :: string
  LintFile_Config :: "(string \<times> json) list option"

record 'ast Node =
  Node_Node :: 'ast
  Node_Key :: string
  Node_Config :: "(string \<times> json) list option"
  Node_Combine :: bool

record TopLevelArgment =
  TLA_Data :: json
  TLA_CombinedData :: "json option"
  TLA_Config :: "(string \<times> json) list option"

record 'r Result =
  Result_LintFile :: string
  Result_RawResult :: "'r list"
  RawOutput :: string
  Interface :: json
  Result_Error :: string

text \<open>
  What the code calls outside the repository is a parameter of the model. Reading a file
  and evaluating Jsonnet are taken to be functions of their arguments: the file system
  does not change during a run.
  \<^item> \<open>ReadToNode\<close> is \<open>jsonnet.ReadToNode(p.fs, path)\<close>;
  \<^item> \<open>vm_Evaluate tla node\<close> is \<open>jsonnet.NewVM(tla, le.importer).Evaluate(node)\<close>;
  \<^item> \<open>Marshal\<close> is \<open>json.Marshal\<close> on a top level argument, \<open>Unmarshal_any\<close> is
    \<open>json.Unmarshal\<close> into an \<open>any\<close>, \<open>Unmarshal_results\<close> is \<open>json.Unmarshal\<close> into a
    \<open>[]*domain.JsonnetResult\<close>.
  A call that returns \<open>(value, error)\<close> returns \<open>Inl\<close> of the error's message or \<open>Inr\<close> of
  the value.
\<close>

record 'ast LintFileParser =
  ReadToNode :: "string \<Rightarrow> string + 'ast"

record 'ast LintFileEvaluator =
  vm_Evaluate :: "string \<Rightarrow> 'ast \<Rightarrow> string + string"

record 'r encoding_json =
  Marshal :: "TopLevelArgment \<Rightarrow> string + string"
  Unmarshal_any :: "string \<Rightarrow> string + json"
  Unmarshal_results :: "string \<Rightarrow> string + 'r list"

definition Parse :: "'ast LintFileParser \<Rightarrow> LintFile \<Rightarrow> string + 'ast Node" where
  "Parse p lintFile =
     (case ReadToNode p (LintFile_Path lintFile) of
        Inl err \<Rightarrow> Inl err
      | Inr node \<Rightarrow>
          Inr \<lparr> Node_Node = node,
                Node_Key = LintFile_ID lintFile,
                Node_Config = LintFile_Config lintFile,
                Node_Combine = HasSuffix (LintFile_Path lintFile) ''_combine.jsonnet'' \<rparr>)"

text \<open>
  \<open>Evaluate\<close> replaces a \<open>nil\<close> configuration of its argument by the empty map before it
  serialises the argument; the caller \<open>Evaluates\<close> passes a structure of its own, so the
  assignment is seen nowhere else.
\<close>

definition Evaluate ::
  "'r encoding_json \<Rightarrow> 'ast LintFileEvaluator \<Rightarrow> TopLevelArgment \<Rightarrow> 'ast \<Rightarrow> string + string" where
  "Evaluate j le tla lintFile =
     (let tla' = (if TLA_Config tla = None then tla\<lparr>TLA_Config := Some []\<rparr> else tla)
      in case Marshal j tla' of
           Inl err \<Rightarrow> Inl (''marshal a top level argument as JSON: '' @ err)
         | Inr tlaB \<Rightarrow>
             (case vm_Evaluate le tlaB lintFile of
                Inl err \<Rightarrow> Inl (''evaluate a lint file as Jsonnet: '' @ err)
              | Inr result \<Rightarrow> Inr result))"

text \<open>\<open>parseResult\<close> returns the decoded entries, the untyped value and the error (if any).\<close>

definition parseResult :: "'r encoding_json \<Rightarrow> string \<Rightarrow> 'r list \<times> json \<times> string option" where
  "parseResult j result =
     (case Unmarshal_any j result of
        Inl err \<Rightarrow> ([], JNull, Some (''unmarshal the result as JSON: '' @ err))
      | Inr rs \<Rightarrow>
          (case Unmarshal_results j result of
             Inl err \<Rightarrow> ([], rs, Some (''unmarshal the result as JSON: '' @ err))
           | Inr out \<Rightarrow> (out, rs, None)))"

text \<open>
  The body of the loop of \<open>Evaluates\<close> after the call of \<open>Evaluate\<close>: the result stored in
  \<open>results[i]\<close> for the lint file with key \<open>key\<close>, given what \<open>Evaluate\<close> returned.
\<close>

definition Evaluates_result :: "'r encoding_json \<Rightarrow> string \<Rightarrow> string + string \<Rightarrow> 'r Result" where
  "Evaluates_result j key ev =
     (case ev of
        Inl err \<Rightarrow>
          \<lparr> Result_LintFile = key, Result_RawResult = [], RawOutput = [], Interface = JNull,
            Result_Error = err \<rparr>
      | Inr s \<Rightarrow>
          (let (rs, a, err) = parseResult j s;
               r = \<lparr> Result_LintFile = key, Result_RawResult = rs, RawOutput = s, Interface = a,
                     Result_Error = [] \<rparr>
           in case err of None \<Rightarrow> r | Some e \<Rightarrow> r\<lparr>Result_Error := e\<rparr>))"

text \<open>
  \<open>Evaluates\<close>: \<open>results\<close> is a slice of \<open>len(lintFiles)\<close> pointers, all \<open>nil\<close> (\<open>None\<close>) at
  first; the loop stores a result at index \<open>i\<close> for the \<open>i\<close>-th lint file, after an
  error of \<open>Evaluate\<close> (\<open>continue\<close>) as well as after a success.
\<close>

fun Evaluates_loop ::
  "'r encoding_json \<Rightarrow> 'ast LintFileEvaluator \<Rightarrow> TopLevelArgment \<Rightarrow> 'r Result option list \<Rightarrow> nat \<Rightarrow>
   'ast Node list \<Rightarrow> 'r Result option list" where
  "Evaluates_loop j le tla results i [] = results"
| "Evaluates_loop j le tla results i (lintFile # lintFiles) =
     (let tla' = \<lparr> TLA_Data = TLA_Data tla,
                   TLA_CombinedData = TLA_CombinedData tla,
                   TLA_Config = Node_Config lintFile \<rparr>;
          ev = Evaluate j le tla' (Node_Node lintFile)
      in Evaluates_loop j le tla
           (results[i := Some (Evaluates_result j (Node_Key lintFile) ev)]) (Suc i) lintFiles)"

definition Evaluates ::
  "'r encoding_json \<Rightarrow> 'ast LintFileEvaluator \<Rightarrow> TopLevelArgment \<Rightarrow> 'ast Node list \<Rightarrow>
   'r Result option list" where
  "Evaluates j le tla lintFiles =
     Evaluates_loop j le tla (replicate (length lintFiles) None) 0 lintFiles"

section \<open>The lint controller (pkg/controller/lint)\<close>

text \<open>
  The structures of package \<open>lint\<close>. \<open>'data\<close> is \<open>*Data\<close>, the decoded content of a data
  file; \<open>'res\<close> is the \<open>*Result\<close> that \<open>c.parseResult\<close> makes of an evaluation result;
  \<open>'lf\<close> is \<open>*LintFile\<close>, an entry of a target's lint files.
\<close>

record 'ast lint_Node =
  lint_Node_Node :: 'ast
  lint_Node_Custom :: "(string \<times> json) list option"
  lint_Node_Key :: string

record 'data lint_TopLevelArgment =
  lint_TLA_Data :: 'data
  lint_TLA_Custom :: "(string \<times> json) list option"

record JsonnetEvaluateResult =
  JER_Key :: string
  JER_Result :: string
  JER_Error :: string

record 'res FileResult =
  FileResult_Results :: "'res option list"
  FileResult_Error :: string

record 'lf Target =
  LintFiles :: "'lf list"
  DataFiles :: "string list"

record ParamLint =
  ErrorLevel :: string
  RootDir :: string
  ConfigFilePath :: string
  FilePaths :: "string list"
  Outputs :: "string list"
  OutputSuccess :: bool

text \<open>
  The controller \<open>c\<close>. Its methods and the package functions that are not in the files at
  hand are the fields of the record, each a function of its arguments:
  \<open>findAndReadConfig\<close> (returns the configuration it fills in), \<open>module.ListModules\<close>,
  \<open>installModules\<close> (given the base directory and the module map), \<open>findFiles\<close>,
  \<open>filterTargets\<close>, \<open>errlevel.New\<close> and the level \<open>errlevel.Error\<close>, \<open>Output\<close>,
  \<open>readJsonnets\<close>, \<open>parseDataFile\<close>, \<open>c.parseResult\<close>, \<open>json.Marshal\<close> on a top level
  argument, and \<open>jsonnet.NewVM(tla, c.importer).Evaluate(node)\<close>.
\<close>

record ('cfg, 'mods, 'modmap, 'lvl, 'lf, 'ast, 'data, 'res) Controller =
  findAndReadConfig :: "string \<Rightarrow> string + 'cfg"
  ListModules :: "'cfg \<Rightarrow> string + 'mods \<times> 'modmap"
  installModules :: "string \<Rightarrow> 'modmap \<Rightarrow> string option"
  findFiles :: "'cfg \<Rightarrow> 'mods \<Rightarrow> string \<Rightarrow> string + 'lf Target list"
  filterTargets :: "'lf Target list \<Rightarrow> string list \<Rightarrow> 'lf Target list"
  errlevel_New :: "string \<Rightarrow> string + 'lvl"
  errlevel_Error :: 'lvl
  Output :: "'cfg \<Rightarrow> 'lvl \<Rightarrow> (string \<rightharpoonup> 'res FileResult) \<Rightarrow> string list \<Rightarrow> bool \<Rightarrow> string option"
  readJsonnets :: "'lf list \<Rightarrow> string + 'ast lint_Node list"
  parseDataFile :: "string \<Rightarrow> string + 'data"
  Controller_parseResult :: "JsonnetEvaluateResult option \<Rightarrow> 'res"
  Controller_Marshal :: "'data lint_TopLevelArgment \<Rightarrow> string + string"
  Controller_vm_Evaluate :: "string \<Rightarrow> 'ast \<Rightarrow> string + string"

definition evaluateNode ::
  "('cfg, 'mods, 'modmap, 'lvl, 'lf, 'ast, 'data, 'res) Controller \<Rightarrow> 'data \<Rightarrow> 'ast lint_Node \<Rightarrow>
   JsonnetEvaluateResult" where
  "evaluateNode c data ja =
     (let tla = \<lparr> lint_TLA_Data = data, lint_TLA_Custom = lint_Node_Custom ja \<rparr>;
          tla = (if lint_TLA_Custom tla = None then tla\<lparr>lint_TLA_Custom := Some []\<rparr> else tla)
      in case Controller_Marshal c tla of
           Inl err \<Rightarrow>
             \<lparr> JER_Key = lint_Node_Key ja, JER_Result = [],
               JER_Error = ''marshal a top level argument as JSON: '' @ err \<rparr>
         | Inr tlaB \<Rightarrow>
             (case Controller_vm_Evaluate c tlaB (lint_Node_Node ja) of
                Inl err \<Rightarrow> \<lparr> JER_Key = lint_Node_Key ja, JER_Result = [], JER_Error = err \<rparr>
              | Inr result \<Rightarrow>
                  \<lparr> JER_Key = lint_Node_Key ja, JER_Result = result, JER_Error = [] \<rparr>))"

text \<open>\<open>evaluate\<close>: a slice of \<open>len(jsonnetAsts)\<close> \<open>nil\<close> pointers, filled by index.\<close>

fun evaluate_loop ::
  "('cfg, 'mods, 'modmap, 'lvl, 'lf, 'ast, 'data, 'res) Controller \<Rightarrow> 'data \<Rightarrow>
   JsonnetEvaluateResult option list \<Rightarrow> nat \<Rightarrow> 'ast lint_Node list \<Rightarrow>
   JsonnetEvaluateResult option list" where
  "evaluate_loop c data results i [] = results"
| "evaluate_loop c data results i (ja # jsonnetAsts) =
     evaluate_loop c data (results[i := Some (evaluateNode c data ja)]) (Suc i) jsonnetAsts"

definition evaluate ::
  "('cfg, 'mods, 'modmap, 'lvl, 'lf, 'ast, 'data, 'res) Controller \<Rightarrow> 'data \<Rightarrow> 'ast lint_Node list \<Rightarrow>
   JsonnetEvaluateResult option list" where
  "evaluate c data jsonnetAsts =
     evaluate_loop c data (replicate (length jsonnetAsts) None) 0 jsonnetAsts"

text \<open>
  \<open>lint\<close>: decode the data file, evaluate every lint file on it, and turn each evaluation
  result into a \<open>*Result\<close>, again by index into a fresh slice.
\<close>

fun lint_loop ::
  "('cfg, 'mods, 'modmap, 'lvl, 'lf, 'ast, 'data, 'res) Controller \<Rightarrow> 'res option list \<Rightarrow> nat \<Rightarrow>
   JsonnetEvaluateResult option list \<Rightarrow> 'res option list" where
  "lint_loop c rs i [] = rs"
| "lint_loop c rs i (result # results) =
     lint_loop c (rs[i := Some (Controller_parseResult c result)]) (Suc i) results"

definition lint ::
  "('cfg, 'mods, 'modmap, 'lvl, 'lf, 'ast, 'data, 'res) Controller \<Rightarrow> string \<Rightarrow> 'ast lint_Node list \<Rightarrow>
   string + 'res option list" where
  "lint c dataFile jsonnetAsts =
     (case parseDataFile c dataFile of
        Inl err \<Rightarrow> Inl err
      | Inr tla \<Rightarrow>
          (let results = evaluate c tla jsonnetAsts;
               rs = replicate (length results) None
           in Inr (lint_loop c rs 0 results)))"

text \<open>
  \<open>lintTarget\<close> writes into the map \<open>results\<close> it is given, one entry per data file of the
  target; the model returns the updated map. \<open>lintTarget_result\<close> is the \<open>FileResult\<close> the
  loop stores for a data file: the error of \<open>lint\<close>, or its results. When the lint files
  cannot be read \<open>lintTarget\<close> returns the error before it has written anything.
\<close>

definition lintTarget_result ::
  "('cfg, 'mods, 'modmap, 'lvl, 'lf, 'ast, 'data, 'res) Controller \<Rightarrow> 'ast lint_Node list \<Rightarrow>
   string \<Rightarrow> 'res FileResult" where
  "lintTarget_result c jsonnetAsts dataFile =
     (case lint c dataFile jsonnetAsts of
        Inl err \<Rightarrow> \<lparr> FileResult_Results = [], FileResult_Error = err \<rparr>
      | Inr rs \<Rightarrow> \<lparr> FileResult_Results = rs, FileResult_Error = [] \<rparr>)"

fun lintTarget_loop ::
  "('cfg, 'mods, 'modmap, 'lvl, 'lf, 'ast, 'data, 'res) Controller \<Rightarrow> 'ast lint_Node list \<Rightarrow>
   string list \<Rightarrow> (string \<rightharpoonup> 'res FileResult) \<Rightarrow> (string \<rightharpoonup> 'res FileResult)" where
  "lintTarget_loop c jsonnetAsts [] results = results"
| "lintTarget_loop c jsonnetAsts (dataFile # dataFiles) results =
     lintTarget_loop c jsonnetAsts dataFiles
       (results(dataFile \<mapsto> lintTarget_result c jsonnetAsts dataFile))"

definition lintTarget ::
  "('cfg, 'mods, 'modmap, 'lvl, 'lf, 'ast, 'data, 'res) Controller \<Rightarrow> 'lf Target \<Rightarrow>
   (string \<rightharpoonup> 'res FileResult) \<Rightarrow> string + (string \<rightharpoonup> 'res FileResult)" where
  "lintTarget c target results =
     (case readJsonnets c (LintFiles target) of
        Inl err \<Rightarrow> Inl err
      | Inr jsonnetAsts \<Rightarrow> Inr (lintTarget_loop c jsonnetAsts (DataFiles target) results))"

fun getResults_loop ::
  "('cfg, 'mods, 'modmap, 'lvl, 'lf, 'ast, 'data, 'res) Controller \<Rightarrow> 'lf Target list \<Rightarrow>
   (string \<rightharpoonup> 'res FileResult) \<Rightarrow> string + (string \<rightharpoonup> 'res FileResult)" where
  "getResults_loop c [] results = Inr results"
| "getResults_loop c (target # targets) results =
     (case lintTarget c target results of
        Inl err \<Rightarrow> Inl err
      | Inr results' \<Rightarrow> getResults_loop c targets results')"

definition getResults ::
  "('cfg, 'mods, 'modmap, 'lvl, 'lf, 'ast, 'data, 'res) Controller \<Rightarrow> 'lf Target list \<Rightarrow>
   string + (string \<rightharpoonup> 'res FileResult)" where
  "getResults c targets = getResults_loop c targets Map.empty"

definition getErrorLevel ::
  "('cfg, 'mods, 'modmap, 'lvl, 'lf, 'ast, 'data, 'res) Controller \<Rightarrow> string \<Rightarrow> string + 'lvl" where
  "getErrorLevel c errorLevel =
     (if errorLevel = [] then Inr (errlevel_Error c)
      else case errlevel_New c errorLevel of
             Inl err \<Rightarrow> Inl err
           | Inr ll \<Rightarrow> Inr ll)"

text \<open>
  \<open>Lint\<close> runs its steps in order and returns at the first error. The model returns the
  error (\<open>None\<close> for \<open>nil\<close>) together with the list of the calls the run made, in order.
\<close>

datatype call =
  FindAndReadConfig | CallListModules | InstallModules | FindFiles | FilterTargets
| GetErrorLevel | GetResults | CallOutput

definition Lint ::
  "('cfg, 'mods, 'modmap, 'lvl, 'lf, 'ast, 'data, 'res) Controller \<Rightarrow> ParamLint \<Rightarrow>
   call list \<times> string option" where
  "Lint c param =
     (case findAndReadConfig c (ConfigFilePath param) of
        Inl err \<Rightarrow> ([FindAndReadConfig], Some err)
      | Inr cfg \<Rightarrow>
     (case ListModules c cfg of
        Inl err \<Rightarrow> ([FindAndReadConfig, CallListModules], Some (''list modules: '' @ err))
      | Inr (modulesList, modMap) \<Rightarrow>
     (case installModules c (RootDir param) modMap of
        Some err \<Rightarrow> ([FindAndReadConfig, CallListModules, InstallModules], Some err)
      | None \<Rightarrow>
     (case findFiles c cfg modulesList (RootDir param) of
        Inl err \<Rightarrow> ([FindAndReadConfig, CallListModules, InstallModules, FindFiles], Some err)
      | Inr targets0 \<Rightarrow>
     (let (filtered, targets) =
            (if length (FilePaths param) > 0
             then ([FilterTargets], filterTargets c targets0 (FilePaths param))
             else ([], targets0));
          calls = [FindAndReadConfig, CallListModules, InstallModules, FindFiles] @ filtered
      in case getErrorLevel c (ErrorLevel param) of
           Inl err \<Rightarrow> (calls @ [GetErrorLevel], Some err)
         | Inr errLevel \<Rightarrow>
      (case getResults c targets of
         Inl err \<Rightarrow> (calls @ [GetErrorLevel, GetResults], Some err)
       | Inr results \<Rightarrow>
           (calls @ [GetErrorLevel, GetResults, CallOutput],
            Output c cfg errLevel results (Outputs param) (OutputSuccess param))))))))"

section \<open>The driver of one target\<close>

text \<open>
  The caller of \<open>Evaluates\<close> decides which top level argument a lint file of a target is
  evaluated with. Its code is not in the files at hand; the three definitions below follow
  section 4.4 of the specification. \<open>ds\<close> are the decoded values of the target's data
  files, in the target's order.
\<close>

text \<open>
  Modelled from the spec: the combined data of a target, missing with the caller of
  \<open>Evaluates\<close>. ``If \<open>combine\<close> is set for any rule in the target, compute \<open>combinedData\<close>
  once per target as the ordered list of all decoded data values for that target's data
  files (shared across every data file evaluated against a combine rule, not per-file).''
\<close>

definition combinedData :: "'ast Node list \<Rightarrow> json list \<Rightarrow> json option" where
  "combinedData lintFiles ds = (if list_ex Node_Combine lintFiles then Some (JArray ds) else None)"

text \<open>
  Modelled from the spec: the evaluation of the rules of a target on one data file, missing
  with the caller of \<open>Evaluates\<close>. ``For every (rule, data file) pair, build the
  \<open>TopLevelArgument\<close>: \<open>data\<close> set to that file's own value for non-combine rules,
  \<open>combinedData\<close> set for combine rules, \<open>config\<close> set to the rule's declared
  configuration''; ``\<open>combinedData\<close> is populated only for combine-flagged rules''. The
  field \<open>data\<close> is not optional in the specification's data model, so it holds the file's
  own value for combine rules as well. \<open>Evaluates\<close> sets the configuration of each rule
  itself. The first component holds the results of the rules without the combine flag, the
  second those of the rules with it.
\<close>

definition evaluateDataFile ::
  "'r encoding_json \<Rightarrow> 'ast LintFileEvaluator \<Rightarrow> 'ast Node list \<Rightarrow> json list \<Rightarrow> json \<Rightarrow>
   'r Result option list \<times> 'r Result option list" where
  "evaluateDataFile j le lintFiles ds d =
     (Evaluates j le \<lparr> TLA_Data = d, TLA_CombinedData = None, TLA_Config = None \<rparr>
        (filter (\<lambda>n. \<not> Node_Combine n) lintFiles),
      Evaluates j le \<lparr> TLA_Data = d, TLA_CombinedData = combinedData lintFiles ds, TLA_Config = None \<rparr>
        (filter Node_Combine lintFiles))"

text \<open>
  Modelled from the spec: the evaluation of a target, missing with the caller of
  \<open>Evaluates\<close>: every data file of the target in turn, each against every rule.
\<close>

definition evaluateTarget ::
  "'r encoding_json \<Rightarrow> 'ast LintFileEvaluator \<Rightarrow> 'ast Node list \<Rightarrow> json list \<Rightarrow>
   ('r Result option list \<times> 'r Result option list) list" where
  "evaluateTarget j le lintFiles ds = map (evaluateDataFile j le lintFiles ds) ds"

section \<open>A small run\<close>

text \<open>
  Concrete collaborators on which the theorems below are instantiated. A lint file is
  given by its text: the engine fails on the text \<open>error\<close> and otherwise prints the text
  followed by the argument it was given. The serialiser prints \<open>combined\<close> when the
  argument carries combined data and \<open>plain\<close> when it does not; the decoder
  knows the outputs \<open>[]plain\<close> and \<open>[]combined\<close> (an empty list of results) and \<open>{}plain\<close>
  (an object, which is no list of results).
\<close>

definition run_json :: "string encoding_json" where
  "run_json =
     \<lparr> Marshal = (\<lambda>tla. Inr (if TLA_CombinedData tla = None then ''plain'' else ''combined'')),
       Unmarshal_any = (\<lambda>s. if s = ''[]plain'' \<or> s = ''[]combined'' then Inr (JArray [])
                            else if s = ''{}plain'' then Inr (JObject [])
                            else Inl ''invalid character''),
       Unmarshal_results = (\<lambda>s. if s = ''[]plain'' \<or> s = ''[]combined'' then Inr []
                                else Inl ''cannot unmarshal object'') \<rparr>"

definition run_evaluator :: "string LintFileEvaluator" where
  "run_evaluator =
     \<lparr> vm_Evaluate = (\<lambda>tla node. if node = ''error'' then Inl ''RUNTIME ERROR'' else Inr (node @ tla)) \<rparr>"

definition run_node :: "string \<Rightarrow> string \<Rightarrow> string Node" where
  "run_node path text =
     \<lparr> Node_Node = text, Node_Key = path, Node_Config = None,
       Node_Combine = HasSuffix path ''_combine.jsonnet'' \<rparr>"

text \<open>
  A controller: every lint file path is read to a node whose text is the path, except
  \<open>missing.jsonnet\<close>; every data file decodes to its path, except \<open>bad.json\<close>; the
  engine fails on \<open>error.jsonnet\<close>; the error levels are \<open>debug\<close>, \<open>info\<close>, \<open>warn\<close> and
  \<open>error\<close>.
\<close>

definition run_targets :: "string Target list" where
  "run_targets =
     [\<lparr> LintFiles = [''error.jsonnet'', ''a.jsonnet''], DataFiles = [''x.json'', ''y.json''] \<rparr>,
      \<lparr> LintFiles = [''b.jsonnet''], DataFiles = [''bad.json'', ''x.json''] \<rparr>]"

definition run_controller ::
  "(unit, unit, unit, nat, string, string, string, JsonnetEvaluateResult option) Controller" where
  "run_controller =
     \<lparr> findAndReadConfig = (\<lambda>path. Inr ()),
       ListModules = (\<lambda>cfg. Inr ((), ())),
       installModules = (\<lambda>baseDir modMap. None),
       findFiles = (\<lambda>cfg mods rootDir. Inr run_targets),
       filterTargets = (\<lambda>targets filePaths.
          map (\<lambda>t. t\<lparr>DataFiles := filter (\<lambda>d. d \<in> set filePaths) (DataFiles t)\<rparr>) targets),
       errlevel_New = (\<lambda>s. if s = ''debug'' then Inr 0 else if s = ''info'' then Inr 1
                            else if s = ''warn'' then Inr 2 else if s = ''error'' then Inr 3
                            else Inl ''invalid error level''),
       errlevel_Error = 3,
       Output = (\<lambda>cfg errLevel results outputs outputSuccess. None),
       readJsonnets = (\<lambda>lintFiles.
          if ''missing.jsonnet'' \<in> set lintFiles then Inl ''open missing.jsonnet: no such file''
          else Inr (map (\<lambda>p. \<lparr> lint_Node_Node = p, lint_Node_Custom = None, lint_Node_Key = p \<rparr>)
                      lintFiles)),
       parseDataFile = (\<lambda>p. if p = ''bad.json'' then Inl ''invalid character'' else Inr p),
       Controller_parseResult = (\<lambda>r. r),
       Controller_Marshal = (\<lambda>tla. Inr (lint_TLA_Data tla)),
       Controller_vm_Evaluate = (\<lambda>tla node.
          if node = ''error.jsonnet'' then Inl ''RUNTIME ERROR'' else Inr (node @ '' '' @ tla)) \<rparr>"

definition run_param :: "string \<Rightarrow> ParamLint" where
  "run_param errorLevel =
     \<lparr> ErrorLevel = errorLevel, RootDir = ''/work'', ConfigFilePath = ''lintnet.jsonnet'',
       FilePaths = [], Outputs = [], OutputSuccess = False \<rparr>"

section \<open>Lemmas on Go strings\<close>

lemma asciiSpace_not_cont: "asciiSpace x \<Longrightarrow> \<not> contByte x"
  by (auto simp: asciiSpace_def contByte_def)

lemma space2_bytes: "space2 c d \<Longrightarrow> \<not> contByte c \<and> \<not> asciiSpace c \<and> contByte d"
  by (auto simp: asciiSpace_def space2_def contByte_def)

lemma space3_bytes: "space3 c d e \<Longrightarrow> \<not> contByte c \<and> \<not> asciiSpace c \<and> contByte d \<and> contByte e"
  by (auto simp: asciiSpace_def space3_def contByte_def)

lemma space2_not_space3: "space2 c d \<Longrightarrow> \<not> space3 c d e"
  by (auto simp: space3_def space2_def)

lemma not_cont_no_tail:
  "\<not> contByte x \<Longrightarrow> \<not> space2 c x"
  "\<not> contByte x \<Longrightarrow> \<not> space3 c x e"
  "\<not> contByte x \<Longrightarrow> \<not> space3 c d x"
  using space2_bytes space3_bytes by blast+

text \<open>White space in front of a string is found the same way whatever follows a byte that starts an encoding.\<close>

lemma TrimLeftSpace_append:
  "\<not> contByte x \<Longrightarrow>
   TrimLeftSpace (s @ x # w) =
     (if TrimLeftSpace s = [] then TrimLeftSpace (x # w) else TrimLeftSpace s @ x # w)"
proof (induction s rule: TrimLeftSpace.induct)
  case 1
  then show ?case by simp
next
  case (2 c)
  then show ?case by (cases w) (simp_all add: not_cont_no_tail)
next
  case (3 c d)
  then show ?case by (simp add: not_cont_no_tail)
next
  case (4 c d e s)
  then show ?case by simp
qed

lemma TrimRightSpaceRev_cons1: "asciiSpace e \<Longrightarrow> TrimRightSpaceRev (e # r) = TrimRightSpaceRev r"
  by (cases r rule: TrimRightSpaceRev.cases) simp_all

lemma TrimRightSpaceRev_cons2: "space2 d e \<Longrightarrow> TrimRightSpaceRev (e # d # r) = TrimRightSpaceRev r"
  using space2_bytes [of d e] asciiSpace_not_cont [of e] by (cases r) auto

lemma TrimRightSpaceRev_cons3:
  "space3 c d e \<Longrightarrow> TrimRightSpaceRev (e # d # c # r) = TrimRightSpaceRev r"
  using space3_bytes [of c d e] asciiSpace_not_cont [of e] space2_bytes [of d e] by auto

lemma TrimSpace_snoc1:
  assumes "asciiSpace e"
  shows "TrimSpace (s @ [e]) = TrimSpace s"
proof -
  have "\<not> contByte e" using assms by (rule asciiSpace_not_cont)
  then show ?thesis
    using assms
    by (simp add: TrimSpace_def TrimRightSpace_def TrimLeftSpace_append TrimRightSpaceRev_cons1
          del: TrimRightSpaceRev.simps)
qed

lemma TrimSpace_snoc2:
  assumes "space2 d e"
  shows "TrimSpace (s @ [d, e]) = TrimSpace s"
proof -
  have "\<not> contByte d" "\<not> asciiSpace d" using assms space2_bytes by blast+
  then show ?thesis
    using assms
    by (simp add: TrimSpace_def TrimRightSpace_def TrimLeftSpace_append TrimRightSpaceRev_cons2
          del: TrimRightSpaceRev.simps)
qed

lemma TrimSpace_snoc3:
  assumes "space3 c d e"
  shows "TrimSpace (s @ [c, d, e]) = TrimSpace s"
proof -
  have "\<not> contByte c" "\<not> asciiSpace c" "\<not> space2 c d"
    using assms space3_bytes space2_not_space3 by blast+
  then show ?thesis
    using assms
    by (simp add: TrimSpace_def TrimRightSpace_def TrimLeftSpace_append TrimRightSpaceRev_cons3
          del: TrimRightSpaceRev.simps)
qed

lemma TrimSpace_TrimRightSpaceRev: "TrimSpace (rev (TrimRightSpaceRev r)) = TrimSpace (rev r)"
proof (induction r rule: TrimRightSpaceRev.induct)
  case 1
  then show ?case by simp
next
  case (2 e)
  then show ?case using TrimSpace_snoc1 [of e "[]"] by simp
next
  case (3 e d)
  then show ?case using TrimSpace_snoc1 [of e "[d]"] TrimSpace_snoc2 [of d e "[]"] by simp
next
  case (4 e d c r)
  then show ?case
    using TrimSpace_snoc1 [of e "rev r @ [c, d]"] TrimSpace_snoc2 [of d e "rev r @ [c]"]
      TrimSpace_snoc3 [of c d e "rev r"] by simp
qed

text \<open>Trimming on the right first does not change what \<open>TrimSpace\<close> returns.\<close>

lemma TrimSpace_TrimRightSpace: "TrimSpace (TrimRightSpace s) = TrimSpace s"
  using TrimSpace_TrimRightSpaceRev [of "rev s"] by (simp add: TrimRightSpace_def)

lemma TrimLeftSpace_idem: "TrimLeftSpace (TrimLeftSpace s) = TrimLeftSpace s"
  by (induction s rule: TrimLeftSpace.induct) simp_all

lemma TrimSpace_idem: "TrimSpace (TrimSpace s) = TrimSpace s"
  using TrimSpace_TrimRightSpace [of "TrimLeftSpace s"]
  by (simp add: TrimSpace_def TrimLeftSpace_idem)

lemma bang_bytes:
  "\<not> asciiSpace CHR ''!''" "\<not> space2 CHR ''!'' d" "\<not> space3 CHR ''!'' d e"
  "\<not> space2 c CHR ''!''" "\<not> space3 c CHR ''!'' e" "\<not> space3 c d CHR ''!''"
  by (simp_all add: asciiSpace_def space2_def space3_def)

lemma TrimLeftSpace_bang: "TrimLeftSpace (CHR ''!'' # s) = CHR ''!'' # s"
  by (cases s rule: TrimRightSpaceRev.cases) (simp_all add: bang_bytes)

lemma TrimRightSpaceRev_bang:
  "TrimRightSpaceRev (r @ [CHR ''!'']) = TrimRightSpaceRev r @ [CHR ''!'']"
  by (induction r rule: TrimRightSpaceRev.induct) (simp_all add: bang_bytes)

text \<open>An exclamation mark in front is kept; the white space at the end goes.\<close>

lemma TrimSpace_bang: "TrimSpace (CHR ''!'' # s) = CHR ''!'' # TrimRightSpace s"
  by (simp add: TrimSpace_def TrimLeftSpace_bang TrimRightSpace_def TrimRightSpaceRev_bang)

lemma HasSuffix_iff: "HasSuffix s suffix \<longleftrightarrow> (\<exists>pre. s = pre @ suffix)"
proof
  assume "HasSuffix s suffix"
  then have "s = take (length s - length suffix) s @ suffix"
    by (metis HasSuffix_def append_take_drop_id)
  then show "\<exists>pre. s = pre @ suffix" ..
next
  assume "\<exists>pre. s = pre @ suffix"
  then show "HasSuffix s suffix" by (auto simp: HasSuffix_def)
qed

lemma Split_not_Nil: "Split s sep \<noteq> []"
  by (induction s) (auto split: list.splits)

lemma Split_append_sep: "sep \<notin> set a \<Longrightarrow> Split (a @ sep # b) sep = a # Split b sep"
  by (induction a) (auto split: list.splits)

text \<open>Joining the pieces with the separator gives the string back.\<close>

lemma Join_Split: "Join (Split s sep) [sep] = s"
proof (induction s)
  case Nil
  then show ?case by simp
next
  case (Cons c s)
  obtain x xs where sp: "Split s sep = x # xs"
    using Split_not_Nil [of s sep] by (cases "Split s sep") auto
  with Cons show ?case by (cases xs) auto
qed

lemma Cut_append_sep: "sep \<notin> set a \<Longrightarrow> Cut (a @ sep # b) sep = (a, b, True)"
  by (simp add: Cut_def takeWhile_tail dropWhile_append)

lemma hexDigit_not_colon: "hexDigit c \<Longrightarrow> c \<noteq> CHR '':''"
  by (auto simp: hexDigit_def)

text \<open>Forty hexadecimal digits in front are enough for the pattern, whatever follows.\<close>

lemma validateRef_full: "length h = 40 \<Longrightarrow> list_all hexDigit h \<Longrightarrow> validateRef (h @ t) = None"
  by (cases h) (auto simp: validateRef_def list_all_iff dest: in_set_takeD)

text \<open>What the pattern accepts: any string with forty hexadecimal digits in a row.\<close>

lemma fullCommitHashPattern_MatchString_iff:
  "fullCommitHashPattern_MatchString s \<longleftrightarrow>
     (\<exists>pre h post. s = pre @ h @ post \<and> length h = 40 \<and> list_all hexDigit h)"
proof (induction s)
  case Nil
  then show ?case by auto
next
  case (Cons c s)
  show ?case
  proof
    assume "fullCommitHashPattern_MatchString (c # s)"
    then consider "40 \<le> length (c # s)" "list_all hexDigit (take 40 (c # s))"
      | "fullCommitHashPattern_MatchString s"
      by auto
    then show "\<exists>pre h post. c # s = pre @ h @ post \<and> length h = 40 \<and> list_all hexDigit h"
    proof cases
      case 1
      then have "c # s = [] @ take 40 (c # s) @ drop 40 (c # s) \<and>
          length (take 40 (c # s)) = 40 \<and> list_all hexDigit (take 40 (c # s))"
        by simp
      then show ?thesis by blast
    next
      case 2
      with Cons.IH obtain pre h post where "s = pre @ h @ post" "length h = 40" "list_all hexDigit h"
        by blast
      then have "c # s = (c # pre) @ h @ post \<and> length h = 40 \<and> list_all hexDigit h"
        by simp
      then show ?thesis by blast
    qed
  next
    assume "\<exists>pre h post. c # s = pre @ h @ post \<and> length h = 40 \<and> list_all hexDigit h"
    then obtain pre h post where eq: "c # s = pre @ h @ post" and h: "length h = 40" "list_all hexDigit h"
      by blast
    show "fullCommitHashPattern_MatchString (c # s)"
    proof (cases pre)
      case Nil
      with eq h have "take 40 (c # s) = h" "40 \<le> length (c # s)"
        by (simp_all del: take_Suc_Cons length_Cons)
      with h show ?thesis by simp
    next
      case (Cons a pre')
      with eq have "s = pre' @ h @ post" by simp
      with h Cons.IH have "fullCommitHashPattern_MatchString s" by blast
      then show ?thesis by simp
    qed
  qed
qed

lemma validateRef_iff:
  "validateRef ref = None \<longleftrightarrow>
     (\<exists>pre h post. ref = pre @ h @ post \<and> length h = 40 \<and> list_all hexDigit h)"
  by (simp add: validateRef_def fullCommitHashPattern_MatchString_iff)

section \<open>Lemmas on the loops\<close>

text \<open>
  A loop that stores at the indices \<open>i\<close>, \<open>i + 1\<close>, ... of a slice that is long enough
  leaves the rest of the slice as it was.
\<close>

lemma Evaluates_loop_fill:
  "i + length lintFiles \<le> length results \<Longrightarrow>
   Evaluates_loop j le tla results i lintFiles =
     take i results @
     map (\<lambda>n. Some (Evaluates_result j (Node_Key n)
            (Evaluate j le \<lparr> TLA_Data = TLA_Data tla, TLA_CombinedData = TLA_CombinedData tla,
                              TLA_Config = Node_Config n \<rparr> (Node_Node n)))) lintFiles @
     drop (i + length lintFiles) results"
proof (induction lintFiles arbitrary: results i)
  case Nil
  then show ?case by simp
next
  case (Cons n ns)
  then have i: "i < length results" by simp
  from Cons.prems have "Suc i + length ns \<le> length (results[i := x])" for x by simp
  note IH = Cons.IH [OF this]
  show ?case
    by (simp add: IH Let_def take_Suc_conv_app_nth i)
qed

lemma Evaluates_map:
  "Evaluates j le tla lintFiles =
     map (\<lambda>n. Some (Evaluates_result j (Node_Key n)
            (Evaluate j le \<lparr> TLA_Data = TLA_Data tla, TLA_CombinedData = TLA_CombinedData tla,
                              TLA_Config = Node_Config n \<rparr> (Node_Node n)))) lintFiles"
  by (simp add: Evaluates_def Evaluates_loop_fill)

lemma evaluate_loop_fill:
  "i + length jsonnetAsts \<le> length results \<Longrightarrow>
   evaluate_loop c data results i jsonnetAsts =
     take i results @ map (\<lambda>ja. Some (evaluateNode c data ja)) jsonnetAsts @
     drop (i + length jsonnetAsts) results"
proof (induction jsonnetAsts arbitrary: results i)
  case Nil
  then show ?case by simp
next
  case (Cons ja jas)
  then have i: "i < length results" by simp
  from Cons.prems have "Suc i + length jas \<le> length (results[i := x])" for x by simp
  note IH = Cons.IH [OF this]
  show ?case
    by (simp add: IH take_Suc_conv_app_nth i)
qed

lemma evaluate_map:
  "evaluate c data jsonnetAsts = map (\<lambda>ja. Some (evaluateNode c data ja)) jsonnetAsts"
  by (simp add: evaluate_def evaluate_loop_fill)

lemma lint_loop_fill:
  "i + length results \<le> length rs \<Longrightarrow>
   lint_loop c rs i results =
     take i rs @ map (\<lambda>r. Some (Controller_parseResult c r)) results @
     drop (i + length results) rs"
proof (induction results arbitrary: rs i)
  case Nil
  then show ?case by simp
next
  case (Cons r results)
  then have i: "i < length rs" by simp
  from Cons.prems have "Suc i + length results \<le> length (rs[i := x])" for x by simp
  note IH = Cons.IH [OF this]
  show ?case
    by (simp add: IH take_Suc_conv_app_nth i)
qed

lemma lint_Inr:
  "parseDataFile c dataFile = Inr data \<Longrightarrow>
   lint c dataFile jsonnetAsts =
     Inr (map (\<lambda>ja. Some (Controller_parseResult c (Some (evaluateNode c data ja)))) jsonnetAsts)"
  by (simp add: lint_def lint_loop_fill evaluate_map o_def)

lemma lint_Inl: "parseDataFile c dataFile = Inl err \<Longrightarrow> lint c dataFile jsonnetAsts = Inl err"
  by (simp add: lint_def)

text \<open>After the loop of \<open>lintTarget\<close> the map holds an entry for each data file of the target.\<close>

lemma lintTarget_loop_lookup:
  "lintTarget_loop c asts dataFiles results p =
     (if p \<in> set dataFiles then Some (lintTarget_result c asts p) else results p)"
  by (induction dataFiles arbitrary: results) auto

lemma getResults_loop_append:
  "getResults_loop c (ts1 @ ts2) results =
     (case getResults_loop c ts1 results of
        Inl err \<Rightarrow> Inl err
      | Inr results' \<Rightarrow> getResults_loop c ts2 results')"
  by (induction ts1 arbitrary: results) (auto split: sum.splits)

lemma getResults_loop_other:
  "getResults_loop c ts results = Inr m \<Longrightarrow> \<forall>t\<in>set ts. p \<notin> set (DataFiles t) \<Longrightarrow>
   m p = results p"
  by (induction ts arbitrary: results)
     (auto simp: lintTarget_def lintTarget_loop_lookup split: sum.splits)

lemma getResults_loop_succeeds:
  "\<forall>t\<in>set ts. \<exists>asts. readJsonnets c (LintFiles t) = Inr asts \<Longrightarrow>
   \<exists>m. getResults_loop c ts results = Inr m"
  by (induction ts arbitrary: results) (auto simp: lintTarget_def)

lemma getResults_loop_dom:
  "getResults_loop c ts results = Inr m \<Longrightarrow>
   dom m = dom results \<union> (\<Union>t\<in>set ts. set (DataFiles t))"
proof (induction ts arbitrary: results)
  case Nil
  then show ?case by simp
next
  case (Cons t ts)
  from Cons.prems obtain asts where r: "readJsonnets c (LintFiles t) = Inr asts"
    and m: "getResults_loop c ts (lintTarget_loop c asts (DataFiles t) results) = Inr m"
    by (auto simp: lintTarget_def split: sum.splits)
  have "dom (lintTarget_loop c asts (DataFiles t) results) = dom results \<union> set (DataFiles t)"
    by (auto simp: dom_def lintTarget_loop_lookup)
  with Cons.IH [OF m] show ?case by auto
qed

text \<open>The entry of a path is the one written for the last target that lists the path.\<close>

lemma getResults_loop_last:
  assumes "getResults_loop c (ts1 @ t # ts2) results = Inr m"
    and "p \<in> set (DataFiles t)" and "\<forall>t'\<in>set ts2. p \<notin> set (DataFiles t')"
    and "readJsonnets c (LintFiles t) = Inr asts"
  shows "m p = Some (lintTarget_result c asts p)"
proof -
  from assms(1) obtain m1 where m1: "getResults_loop c ts1 results = Inr m1"
    and m: "getResults_loop c (t # ts2) m1 = Inr m"
    by (auto simp: getResults_loop_append split: sum.splits)
  from m assms(4) have "getResults_loop c ts2 (lintTarget_loop c asts (DataFiles t) m1) = Inr m"
    by (simp add: lintTarget_def)
  from getResults_loop_other [OF this assms(3)] assms(2) show ?thesis
    by (simp add: lintTarget_loop_lookup)
qed

section \<open>Isolation of evaluation failures\<close>

lemmas run_defs =
  run_controller_def run_targets_def run_json_def run_evaluator_def run_node_def run_param_def

text \<open>
  C1. An error of one evaluation stops no other. In \<open>Evaluates\<close> the result at every index
  \<open>k\<close> is the outcome of the \<open>k\<close>-th lint file alone: what \<open>Evaluate\<close> returned for it (an
  error of the engine or of the serialisation of the argument) and, after a success, what
  \<open>parseResult\<close> made of the output (which may be a shape error); no other lint file's
  outcome enters it. In the controller, once the lint files of every target have been read
  into nodes, \<open>getResults\<close> returns a map with an entry for every data file of every
  target: the file's decoding error, or one result for every node of a target that lists
  the file, each the result of that node on that file.
\<close>

theorem evaluation_failures_are_isolated:
  "(\<forall>k<length lintFiles.
      Evaluates j le tla lintFiles ! k =
        Some (Evaluates_result j (Node_Key (lintFiles ! k))
               (Evaluate j le \<lparr> TLA_Data = TLA_Data tla, TLA_CombinedData = TLA_CombinedData tla,
                                 TLA_Config = Node_Config (lintFiles ! k) \<rparr>
                  (Node_Node (lintFiles ! k))))) \<and>
   ((\<forall>t\<in>set targets. \<exists>asts. readJsonnets c (LintFiles t) = Inr asts) \<longrightarrow>
    (\<exists>m. getResults c targets = Inr m \<and>
       (\<forall>t\<in>set targets. \<forall>x\<in>set (DataFiles t).
          \<exists>fr. m x = Some fr \<and>
            (case parseDataFile c x of
               Inl err \<Rightarrow> fr = \<lparr> FileResult_Results = [], FileResult_Error = err \<rparr>
             | Inr data \<Rightarrow>
                 \<exists>t'\<in>set targets. \<exists>asts.
                   x \<in> set (DataFiles t') \<and> readJsonnets c (LintFiles t') = Inr asts \<and>
                   fr = \<lparr> FileResult_Results =
                            map (\<lambda>ja. Some (Controller_parseResult c (Some (evaluateNode c data ja)))) asts,
                          FileResult_Error = [] \<rparr>))))"
proof (intro conjI impI)
  show "\<forall>k<length lintFiles.
      Evaluates j le tla lintFiles ! k =
        Some (Evaluates_result j (Node_Key (lintFiles ! k))
               (Evaluate j le \<lparr> TLA_Data = TLA_Data tla, TLA_CombinedData = TLA_CombinedData tla,
                                 TLA_Config = Node_Config (lintFiles ! k) \<rparr>
                  (Node_Node (lintFiles ! k))))"
    by (simp add: Evaluates_map)
next
  assume readable: "\<forall>t\<in>set targets. \<exists>asts. readJsonnets c (LintFiles t) = Inr asts"
  then obtain m where m: "getResults_loop c targets Map.empty = Inr m"
    using getResults_loop_succeeds by blast
  have "\<exists>fr. m x = Some fr \<and>
            (case parseDataFile c x of
               Inl err \<Rightarrow> fr = \<lparr> FileResult_Results = [], FileResult_Error = err \<rparr>
             | Inr data \<Rightarrow>
                 \<exists>t'\<in>set targets. \<exists>asts.
                   x \<in> set (DataFiles t') \<and> readJsonnets c (LintFiles t') = Inr asts \<and>
                   fr = \<lparr> FileResult_Results =
                            map (\<lambda>ja. Some (Controller_parseResult c (Some (evaluateNode c data ja)))) asts,
                          FileResult_Error = [] \<rparr>)"
    if t: "t \<in> set targets" and x: "x \<in> set (DataFiles t)" for t x
  proof -
    from t x have "\<exists>t\<in>set targets. x \<in> set (DataFiles t)" by blast
    then obtain ts1 t' ts2 where split: "targets = ts1 @ t' # ts2"
      and x': "x \<in> set (DataFiles t')" and last: "\<forall>u\<in>set ts2. x \<notin> set (DataFiles u)"
      using split_list_last_prop [of targets "\<lambda>t. x \<in> set (DataFiles t)"] by blast
    from readable split obtain asts where asts: "readJsonnets c (LintFiles t') = Inr asts"
      by auto
    have mx: "m x = Some (lintTarget_result c asts x)"
      using getResults_loop_last [OF m [unfolded split] x' last asts] .
    have t': "t' \<in> set targets" using split by simp
    show ?thesis
    proof (cases "parseDataFile c x")
      case (Inl err)
      then show ?thesis by (simp add: mx lintTarget_result_def lint_Inl)
    next
      case (Inr data)
      then show ?thesis using t' x' asts by (auto simp: mx lintTarget_result_def lint_Inr)
    qed
  qed
  with m show "\<exists>m. getResults c targets = Inr m \<and>
       (\<forall>t\<in>set targets. \<forall>x\<in>set (DataFiles t).
          \<exists>fr. m x = Some fr \<and>
            (case parseDataFile c x of
               Inl err \<Rightarrow> fr = \<lparr> FileResult_Results = [], FileResult_Error = err \<rparr>
             | Inr data \<Rightarrow>
                 \<exists>t'\<in>set targets. \<exists>asts.
                   x \<in> set (DataFiles t') \<and> readJsonnets c (LintFiles t') = Inr asts \<and>
                   fr = \<lparr> FileResult_Results =
                            map (\<lambda>ja. Some (Controller_parseResult c (Some (evaluateNode c data ja)))) asts,
                          FileResult_Error = [] \<rparr>))"
    by (simp add: getResults_def)
qed

text \<open>
  C1 on the small run: the lint file \<open>e.jsonnet\<close> fails and \<open>a.jsonnet\<close> after it has its
  result; in the controller \<open>error.jsonnet\<close> fails on \<open>y.json\<close>, \<open>a.jsonnet\<close> has its result
  on it, and the undecodable \<open>bad.json\<close> has its entry too.
\<close>

theorem evaluation_failures_are_isolated_witness:
  "Evaluates run_json run_evaluator \<lparr> TLA_Data = JNull, TLA_CombinedData = None, TLA_Config = None \<rparr>
     [run_node ''e.jsonnet'' ''error'', run_node ''a.jsonnet'' ''[]''] ! 0 =
     Some \<lparr> Result_LintFile = ''e.jsonnet'', Result_RawResult = [], RawOutput = [], Interface = JNull,
            Result_Error = ''evaluate a lint file as Jsonnet: RUNTIME ERROR'' \<rparr> \<and>
   Evaluates run_json run_evaluator \<lparr> TLA_Data = JNull, TLA_CombinedData = None, TLA_Config = None \<rparr>
     [run_node ''e.jsonnet'' ''error'', run_node ''a.jsonnet'' ''[]''] ! 1 =
     Some \<lparr> Result_LintFile = ''a.jsonnet'', Result_RawResult = [], RawOutput = ''[]plain'',
            Interface = JArray [], Result_Error = [] \<rparr> \<and>
   (\<exists>m. getResults run_controller run_targets = Inr m \<and>
      m ''y.json'' =
        Some \<lparr> FileResult_Results =
                 [Some (Some \<lparr> JER_Key = ''error.jsonnet'', JER_Result = [], JER_Error = ''RUNTIME ERROR'' \<rparr>),
                  Some (Some \<lparr> JER_Key = ''a.jsonnet'', JER_Result = ''a.jsonnet y.json'', JER_Error = [] \<rparr>)],
               FileResult_Error = [] \<rparr> \<and>
      m ''bad.json'' = Some \<lparr> FileResult_Results = [], FileResult_Error = ''invalid character'' \<rparr>)"
proof -
  let ?tla = "\<lparr> TLA_Data = JNull, TLA_CombinedData = None, TLA_Config = None \<rparr>"
  let ?files = "[run_node ''e.jsonnet'' ''error'', run_node ''a.jsonnet'' ''[]'']"
  note inst = evaluation_failures_are_isolated
    [of ?files run_json run_evaluator ?tla run_targets run_controller]
  have readable: "\<forall>t\<in>set run_targets. \<exists>asts. readJsonnets run_controller (LintFiles t) = Inr asts"
    by (simp add: run_defs)
  from inst have e0: "Evaluates run_json run_evaluator ?tla ?files ! 0 =
     Some \<lparr> Result_LintFile = ''e.jsonnet'', Result_RawResult = [], RawOutput = [], Interface = JNull,
            Result_Error = ''evaluate a lint file as Jsonnet: RUNTIME ERROR'' \<rparr>"
    by (simp add: run_defs Evaluates_result_def Evaluate_def)
  from inst have "Evaluates run_json run_evaluator ?tla ?files ! Suc 0 =
        Some (Evaluates_result run_json (Node_Key (?files ! Suc 0))
               (Evaluate run_json run_evaluator \<lparr> TLA_Data = TLA_Data ?tla, TLA_CombinedData = TLA_CombinedData ?tla,
                                 TLA_Config = Node_Config (?files ! Suc 0) \<rparr>
                  (Node_Node (?files ! Suc 0))))"
    by simp
  then have e1: "Evaluates run_json run_evaluator ?tla ?files ! 1 =
     Some \<lparr> Result_LintFile = ''a.jsonnet'', Result_RawResult = [], RawOutput = ''[]plain'',
            Interface = JArray [], Result_Error = [] \<rparr>"
    by (simp add: run_defs Evaluates_result_def Evaluate_def parseResult_def)
  from inst readable obtain m where m: "getResults run_controller run_targets = Inr m"
    and all: "\<forall>t\<in>set run_targets. \<forall>x\<in>set (DataFiles t).
          \<exists>fr. m x = Some fr \<and>
            (case parseDataFile run_controller x of
               Inl err \<Rightarrow> fr = \<lparr> FileResult_Results = [], FileResult_Error = err \<rparr>
             | Inr data \<Rightarrow>
                 \<exists>t'\<in>set run_targets. \<exists>asts.
                   x \<in> set (DataFiles t') \<and> readJsonnets run_controller (LintFiles t') = Inr asts \<and>
                   fr = \<lparr> FileResult_Results =
                            map (\<lambda>ja. Some (Controller_parseResult run_controller (Some (evaluateNode run_controller data ja)))) asts,
                          FileResult_Error = [] \<rparr>)"
    by blast
  from all have y: "m ''y.json'' =
        Some \<lparr> FileResult_Results =
                 [Some (Some \<lparr> JER_Key = ''error.jsonnet'', JER_Result = [], JER_Error = ''RUNTIME ERROR'' \<rparr>),
                  Some (Some \<lparr> JER_Key = ''a.jsonnet'', JER_Result = ''a.jsonnet y.json'', JER_Error = [] \<rparr>)],
               FileResult_Error = [] \<rparr>"
    by (auto simp: run_defs evaluateNode_def)
  from all have bad: "m ''bad.json'' = Some \<lparr> FileResult_Results = [], FileResult_Error = ''invalid character'' \<rparr>"
    by (auto simp: run_defs)
  from e0 e1 m y bad show ?thesis by blast
qed

section \<open>Parsing a module declaration\<close>

text \<open>
  C2. \<open>validateRef\<close> is meant to accept full commit hashes only (its pattern is named
  \<open>fullCommitHashPattern\<close>, its error says so), but the pattern is not anchored
  (\<open>validateRef_iff\<close>): a ref of 41 hexadecimal digits is accepted, so is one with other
  characters in front of 40 digits, and \<open>ParseModuleLine\<close> returns a module with the
  41-digit ref.
\<close>

theorem validateRef_accepts_41_digits:
  "validateRef ''aaaaaaaaaaaaaaaaaaaaaaaaaaaaaaaaaaaaaaaaa'' = None \<and>
   length ''aaaaaaaaaaaaaaaaaaaaaaaaaaaaaaaaaaaaaaaaa'' = 41 \<and>
   validateRef ''zz-aaaaaaaaaaaaaaaaaaaaaaaaaaaaaaaaaaaaaaaa'' = None \<and>
   ParseModuleLine ''github.com/o/r/p@aaaaaaaaaaaaaaaaaaaaaaaaaaaaaaaaaaaaaaaaa'' =
     Inr \<lparr> ID = ''github.com/o/r/p@aaaaaaaaaaaaaaaaaaaaaaaaaaaaaaaaaaaaaaaaa'',
           SlashPath = ''github.com/o/r/aaaaaaaaaaaaaaaaaaaaaaaaaaaaaaaaaaaaaaaaa/p'',
           Archive = Some \<lparr> Type = ''github'', Host = ''github.com'', RepoOwner = ''o'',
                            RepoName = ''r'', Ref = ''aaaaaaaaaaaaaaaaaaaaaaaaaaaaaaaaaaaaaaaaa'',
                            Tag = [] \<rparr>,
           ModuleGlob_Config = None, Excluded = False \<rparr>"
  by code_simp

text \<open>
  C3 (amended). For an owner and a repository name without \<open>/\<close>, a path without \<open>@\<close>, a
  hash of 40 hexadecimal digits and a tag, the line \<open>github.com/o/r/p@h:t\<close>, when it has no
  white space at its ends, parses to the reference with host \<open>github.com\<close>, owner \<open>o\<close>,
  repository \<open>r\<close>, ref \<open>h\<close>, tag \<open>t\<close>, and the slash path \<open>github.com/o/r/h/p\<close>: the slash
  path starts with the host.
\<close>

theorem ParseModuleLine_github:
  assumes o: "CHR ''/'' \<notin> set owner" and r: "CHR ''/'' \<notin> set repo"
    and p: "CHR ''@'' \<notin> set path"
    and h: "length h = 40" "list_all hexDigit h"
    and line: "line = ''github.com/'' @ owner @ ''/'' @ repo @ ''/'' @ path @ ''@'' @ h @ '':'' @ t"
    and trim: "TrimSpace line = line"
  shows "ParseModuleLine line =
     Inr \<lparr> ID = line,
           SlashPath = ''github.com/'' @ owner @ ''/'' @ repo @ ''/'' @ h @ ''/'' @ path,
           Archive = Some \<lparr> Type = ''github'', Host = ''github.com'', RepoOwner = owner,
                            RepoName = repo, Ref = h, Tag = t \<rparr>,
           ModuleGlob_Config = None, Excluded = False \<rparr>"
proof -
  let ?rest = "path @ CHR ''@'' # h @ CHR '':'' # t"
  have pre: "TrimPrefix line ''!'' = line"
    by (simp add: line TrimPrefix_def HasPrefix_def)
  have "line = ''github.com'' @ CHR ''/'' # owner @ CHR ''/'' # repo @ CHR ''/'' # ?rest"
    by (simp add: line)
  then have elems: "Split line CHR ''/'' = ''github.com'' # owner # repo # Split ?rest CHR ''/''"
    using o r by (simp only: Split_append_sep) (simp add: Split_append_sep)
  obtain x xs where sp: "Split ?rest CHR ''/'' = x # xs"
    using Split_not_Nil [of ?rest "CHR ''/''"] by (cases "Split ?rest CHR ''/''") auto
  have join: "Join (Split ?rest CHR ''/'') ''/'' = ?rest"
    by (rule Join_Split)
  have cut1: "Cut ?rest CHR ''@'' = (path, h @ CHR '':'' # t, True)"
    using p by (rule Cut_append_sep)
  have "CHR '':'' \<notin> set h"
    using h(2) hexDigit_not_colon by (auto simp: list_all_iff)
  then have cut2: "Cut (h @ CHR '':'' # t) CHR '':'' = (h, t, True)"
    by (rule Cut_append_sep)
  have ref: "validateRef h = None"
    using validateRef_full [OF h, of "[]"] by simp
  show ?thesis
    using join cut1 cut2 ref sp
    by (simp add: ParseModuleLine_def trim pre Let_def elems)
qed

text \<open>C3 (amended) at the owner \<open>o\<close>, the repository \<open>r\<close>, the path \<open>p/q\<close> and the tag \<open>v1.0\<close>.\<close>

theorem ParseModuleLine_github_witness:
  "CHR ''/'' \<notin> set ''o'' \<and> CHR ''/'' \<notin> set ''r'' \<and> CHR ''@'' \<notin> set ''p/q'' \<and>
   length ''0123456789abcdefABCDEF0123456789abcdef01'' = 40 \<and>
   list_all hexDigit ''0123456789abcdefABCDEF0123456789abcdef01'' \<and>
   TrimSpace ''github.com/o/r/p/q@0123456789abcdefABCDEF0123456789abcdef01:v1.0'' =
     ''github.com/o/r/p/q@0123456789abcdefABCDEF0123456789abcdef01:v1.0'' \<and>
   ParseModuleLine ''github.com/o/r/p/q@0123456789abcdefABCDEF0123456789abcdef01:v1.0'' =
     Inr \<lparr> ID = ''github.com/o/r/p/q@0123456789abcdefABCDEF0123456789abcdef01:v1.0'',
           SlashPath = ''github.com/o/r/0123456789abcdefABCDEF0123456789abcdef01/p/q'',
           Archive = Some \<lparr> Type = ''github'', Host = ''github.com'', RepoOwner = ''o'',
                            RepoName = ''r'', Ref = ''0123456789abcdefABCDEF0123456789abcdef01'',
                            Tag = ''v1.0'' \<rparr>,
           ModuleGlob_Config = None, Excluded = False \<rparr>"
proof -
  have 1: "CHR ''/'' \<notin> set ''o''" and 2: "CHR ''/'' \<notin> set ''r''" and 3: "CHR ''@'' \<notin> set ''p/q''"
    by simp_all
  have 4: "length ''0123456789abcdefABCDEF0123456789abcdef01'' = 40" by simp
  have 5: "list_all hexDigit ''0123456789abcdefABCDEF0123456789abcdef01''"
    by (simp add: hexDigit_def)
  have 6: "TrimSpace ''github.com/o/r/p/q@0123456789abcdefABCDEF0123456789abcdef01:v1.0'' =
     ''github.com/o/r/p/q@0123456789abcdefABCDEF0123456789abcdef01:v1.0''"
    by (simp add: TrimSpace_def TrimRightSpace_def asciiSpace_def space2_def space3_def)
  show ?thesis
    using 1 2 3 4 5 6 ParseModuleLine_github [OF 1 2 3 4 5 _ 6] by simp
qed

text \<open>
  C3 as stated fails: the slash path of \<open>github.com/o/r/p@aaa...a:tag\<close> is
  \<open>github.com/o/r/aaa...a/p\<close>, not \<open>o/r/aaa...a/p\<close>.
\<close>

theorem slashPath_counterexample:
  "ParseModuleLine ''github.com/o/r/p@aaaaaaaaaaaaaaaaaaaaaaaaaaaaaaaaaaaaaaaa:tag'' =
     Inr \<lparr> ID = ''github.com/o/r/p@aaaaaaaaaaaaaaaaaaaaaaaaaaaaaaaaaaaaaaaa:tag'',
           SlashPath = ''github.com/o/r/aaaaaaaaaaaaaaaaaaaaaaaaaaaaaaaaaaaaaaaa/p'',
           Archive = Some \<lparr> Type = ''github'', Host = ''github.com'', RepoOwner = ''o'',
                            RepoName = ''r'', Ref = ''aaaaaaaaaaaaaaaaaaaaaaaaaaaaaaaaaaaaaaaa'',
                            Tag = ''tag'' \<rparr>,
           ModuleGlob_Config = None, Excluded = False \<rparr> \<and>
   map_sum id SlashPath
     (ParseModuleLine ''github.com/o/r/p@aaaaaaaaaaaaaaaaaaaaaaaaaaaaaaaaaaaaaaaa:tag'') \<noteq>
     Inr ''o/r/aaaaaaaaaaaaaaaaaaaaaaaaaaaaaaaaaaaaaaaa/p''"
  by code_simp

text \<open>
  C7 (amended). For every declaration line \<open>L\<close> whose text, once the white space around it
  is removed, does not itself start with \<open>!\<close>: parsing \<open>!\<close> followed by \<open>L\<close> fails with
  the error with which parsing \<open>L\<close> fails, and when parsing \<open>L\<close> succeeds (with the excluded
  flag false) it succeeds with the same reference, the excluded flag set.
\<close>

theorem ParseModuleLine_excluded:
  assumes "\<not> HasPrefix (TrimSpace L) ''!''"
  shows "(\<forall>err. ParseModuleLine L = Inl err \<longrightarrow> ParseModuleLine (''!'' @ L) = Inl err) \<and>
         (\<forall>mg. ParseModuleLine L = Inr mg \<longrightarrow>
            \<not> Excluded mg \<and> ParseModuleLine (''!'' @ L) = Inr (mg\<lparr>Excluded := True\<rparr>))"
proof -
  have 1: "TrimPrefix (TrimSpace L) ''!'' = TrimSpace L"
    using assms by (simp add: TrimPrefix_def)
  have 2: "TrimPrefix (CHR ''!'' # TrimRightSpace L) ''!'' = TrimRightSpace L"
    by (simp add: TrimPrefix_def HasPrefix_def)
  have eq: "ParseModuleLine (CHR ''!'' # L) =
      map_sum id (\<lambda>mg. mg\<lparr>Excluded := True\<rparr>) (ParseModuleLine L)"
    unfolding ParseModuleLine_def TrimSpace_bang 1 2 Let_def
    by (simp add: TrimSpace_TrimRightSpace split: prod.splits option.splits)
  have ex: "\<not> Excluded mg" if "ParseModuleLine L = Inr mg" for mg
    using that unfolding ParseModuleLine_def 1 Let_def
    by (auto split: prod.splits option.splits if_splits)
  from eq ex show ?thesis by simp
qed

text \<open>C7 (amended) at a line that starts with a space.\<close>

theorem ParseModuleLine_excluded_witness:
  "\<not> HasPrefix (TrimSpace '' github.com/o/r/p@aaaaaaaaaaaaaaaaaaaaaaaaaaaaaaaaaaaaaaaa:tag'') ''!'' \<and>
   ParseModuleLine '' github.com/o/r/p@aaaaaaaaaaaaaaaaaaaaaaaaaaaaaaaaaaaaaaaa:tag'' =
     Inr \<lparr> ID = ''github.com/o/r/p@aaaaaaaaaaaaaaaaaaaaaaaaaaaaaaaaaaaaaaaa:tag'',
           SlashPath = ''github.com/o/r/aaaaaaaaaaaaaaaaaaaaaaaaaaaaaaaaaaaaaaaa/p'',
           Archive = Some \<lparr> Type = ''github'', Host = ''github.com'', RepoOwner = ''o'',
                            RepoName = ''r'', Ref = ''aaaaaaaaaaaaaaaaaaaaaaaaaaaaaaaaaaaaaaaa'',
                            Tag = ''tag'' \<rparr>,
           ModuleGlob_Config = None, Excluded = False \<rparr> \<and>
   ParseModuleLine (''!'' @ '' github.com/o/r/p@aaaaaaaaaaaaaaaaaaaaaaaaaaaaaaaaaaaaaaaa:tag'') =
     Inr \<lparr> ID = ''github.com/o/r/p@aaaaaaaaaaaaaaaaaaaaaaaaaaaaaaaaaaaaaaaa:tag'',
           SlashPath = ''github.com/o/r/aaaaaaaaaaaaaaaaaaaaaaaaaaaaaaaaaaaaaaaa/p'',
           Archive = Some \<lparr> Type = ''github'', Host = ''github.com'', RepoOwner = ''o'',
                            RepoName = ''r'', Ref = ''aaaaaaaaaaaaaaaaaaaaaaaaaaaaaaaaaaaaaaaa'',
                            Tag = ''tag'' \<rparr>,
           ModuleGlob_Config = None, Excluded = True \<rparr>"
proof -
  let ?L = "'' github.com/o/r/p@aaaaaaaaaaaaaaaaaaaaaaaaaaaaaaaaaaaaaaaa:tag''"
  have h: "\<not> HasPrefix (TrimSpace ?L) ''!''"
    by code_simp
  have p: "ParseModuleLine ?L =
     Inr \<lparr> ID = ''github.com/o/r/p@aaaaaaaaaaaaaaaaaaaaaaaaaaaaaaaaaaaaaaaa:tag'',
           SlashPath = ''github.com/o/r/aaaaaaaaaaaaaaaaaaaaaaaaaaaaaaaaaaaaaaaa/p'',
           Archive = Some \<lparr> Type = ''github'', Host = ''github.com'', RepoOwner = ''o'',
                            RepoName = ''r'', Ref = ''aaaaaaaaaaaaaaaaaaaaaaaaaaaaaaaaaaaaaaaa'',
                            Tag = ''tag'' \<rparr>,
           ModuleGlob_Config = None, Excluded = False \<rparr>"
    by code_simp
  from ParseModuleLine_excluded [OF h] p h show ?thesis by simp
qed

text \<open>
  C7 as stated fails at a line that starts with \<open>!\<close>: the line parses (as excluded), and
  with one more \<open>!\<close> in front it does not, since only one \<open>!\<close> is removed.
\<close>

theorem double_exclusion_counterexample:
  "ParseModuleLine ''!github.com/o/r/p@aaaaaaaaaaaaaaaaaaaaaaaaaaaaaaaaaaaaaaaa'' =
     Inr \<lparr> ID = ''github.com/o/r/p@aaaaaaaaaaaaaaaaaaaaaaaaaaaaaaaaaaaaaaaa'',
           SlashPath = ''github.com/o/r/aaaaaaaaaaaaaaaaaaaaaaaaaaaaaaaaaaaaaaaa/p'',
           Archive = Some \<lparr> Type = ''github'', Host = ''github.com'', RepoOwner = ''o'',
                            RepoName = ''r'', Ref = ''aaaaaaaaaaaaaaaaaaaaaaaaaaaaaaaaaaaaaaaa'',
                            Tag = [] \<rparr>,
           ModuleGlob_Config = None, Excluded = True \<rparr> \<and>
   ParseModuleLine (''!'' @ ''!github.com/o/r/p@aaaaaaaaaaaaaaaaaaaaaaaaaaaaaaaaaaaaaaaa'') =
     Inl (''module must start with 'github.com/'' @ [CHR 0x27])"
  by code_simp

text \<open>
  C8 (amended). The id of a line that parses is the declaration text without the white
  space around it and, when what is left starts with \<open>!\<close>, without that mark and the white
  space after it; it is the original text of the line when the line has no white space at
  its ends and no \<open>!\<close> in front.
\<close>

theorem ParseModuleLine_ID:
  assumes "ParseModuleLine line = Inr mg"
  shows "ID mg = TrimSpace (TrimPrefix (TrimSpace line) ''!'') \<and>
         (TrimSpace line = line \<and> \<not> HasPrefix line ''!'' \<longrightarrow> ID mg = line)"
proof -
  let ?line1 = "TrimSpace line"
  let ?l = "TrimPrefix ?line1 ''!''"
  have id: "ID mg = (if ?l \<noteq> ?line1 then TrimSpace ?l else ?line1)"
    using assms unfolding ParseModuleLine_def Let_def
    by (auto split: prod.splits option.splits if_splits)
  have "(if ?l \<noteq> ?line1 then TrimSpace ?l else ?line1) = TrimSpace ?l"
    by (simp add: TrimSpace_idem)
  with id have 1: "ID mg = TrimSpace ?l" by simp
  have "ID mg = line" if "TrimSpace line = line" "\<not> HasPrefix line ''!''"
    using 1 that by (simp add: TrimPrefix_def)
  with 1 show ?thesis by simp
qed

text \<open>C8 (amended) at an excluded line with white space around it and after the mark.\<close>

theorem ParseModuleLine_ID_witness:
  "ParseModuleLine ''  ! github.com/o/r/p@aaaaaaaaaaaaaaaaaaaaaaaaaaaaaaaaaaaaaaaa:tag  '' =
     Inr \<lparr> ID = ''github.com/o/r/p@aaaaaaaaaaaaaaaaaaaaaaaaaaaaaaaaaaaaaaaa:tag'',
           SlashPath = ''github.com/o/r/aaaaaaaaaaaaaaaaaaaaaaaaaaaaaaaaaaaaaaaa/p'',
           Archive = Some \<lparr> Type = ''github'', Host = ''github.com'', RepoOwner = ''o'',
                            RepoName = ''r'', Ref = ''aaaaaaaaaaaaaaaaaaaaaaaaaaaaaaaaaaaaaaaa'',
                            Tag = ''tag'' \<rparr>,
           ModuleGlob_Config = None, Excluded = True \<rparr> \<and>
   TrimSpace (TrimPrefix
     (TrimSpace ''  ! github.com/o/r/p@aaaaaaaaaaaaaaaaaaaaaaaaaaaaaaaaaaaaaaaa:tag  '') ''!'') =
     ''github.com/o/r/p@aaaaaaaaaaaaaaaaaaaaaaaaaaaaaaaaaaaaaaaa:tag''"
proof -
  have p: "ParseModuleLine ''  ! github.com/o/r/p@aaaaaaaaaaaaaaaaaaaaaaaaaaaaaaaaaaaaaaaa:tag  '' =
     Inr \<lparr> ID = ''github.com/o/r/p@aaaaaaaaaaaaaaaaaaaaaaaaaaaaaaaaaaaaaaaa:tag'',
           SlashPath = ''github.com/o/r/aaaaaaaaaaaaaaaaaaaaaaaaaaaaaaaaaaaaaaaa/p'',
           Archive = Some \<lparr> Type = ''github'', Host = ''github.com'', RepoOwner = ''o'',
                            RepoName = ''r'', Ref = ''aaaaaaaaaaaaaaaaaaaaaaaaaaaaaaaaaaaaaaaa'',
                            Tag = ''tag'' \<rparr>,
           ModuleGlob_Config = None, Excluded = True \<rparr>"
    by code_simp
  from ParseModuleLine_ID [OF p] p show ?thesis by simp
qed

text \<open>C8 as stated fails at an excluded line: the id is the line without its \<open>!\<close>.\<close>

theorem ID_counterexample:
  "ParseModuleLine ''!github.com/o/r/p@aaaaaaaaaaaaaaaaaaaaaaaaaaaaaaaaaaaaaaaa:tag'' =
     Inr \<lparr> ID = ''github.com/o/r/p@aaaaaaaaaaaaaaaaaaaaaaaaaaaaaaaaaaaaaaaa:tag'',
           SlashPath = ''github.com/o/r/aaaaaaaaaaaaaaaaaaaaaaaaaaaaaaaaaaaaaaaa/p'',
           Archive = Some \<lparr> Type = ''github'', Host = ''github.com'', RepoOwner = ''o'',
                            RepoName = ''r'', Ref = ''aaaaaaaaaaaaaaaaaaaaaaaaaaaaaaaaaaaaaaaa'',
                            Tag = ''tag'' \<rparr>,
           ModuleGlob_Config = None, Excluded = True \<rparr> \<and>
   map_sum id ID (ParseModuleLine ''!github.com/o/r/p@aaaaaaaaaaaaaaaaaaaaaaaaaaaaaaaaaaaaaaaa:tag'') \<noteq>
     Inr ''!github.com/o/r/p@aaaaaaaaaaaaaaaaaaaaaaaaaaaaaaaaaaaaaaaa:tag''"
  by code_simp

section \<open>Combined data and the shape of a result\<close>

text \<open>
  C4. In a target with at least one combine rule whose data files decode to \<open>ds\<close>, the
  driver's results for the \<open>k\<close>-th data file are: for every rule without the combine flag,
  the outcome of \<open>Evaluate\<close> on the argument with that file's own value as data and no
  combined data; for every rule with the flag, the outcome of \<open>Evaluate\<close> on the argument
  whose combined data is the list \<open>ds\<close>, the same for every \<open>k\<close>. Each argument carries the
  rule's own configuration. The node that \<open>Parse\<close> makes of a lint file has the combine
  flag exactly when the file's path ends in \<open>_combine.jsonnet\<close>.
\<close>

theorem combinedData_for_combine_rules_only:
  assumes "list_ex Node_Combine lintFiles" and "k < length ds"
  shows "evaluateTarget j le lintFiles ds ! k =
           (map (\<lambda>n. Some (Evaluates_result j (Node_Key n)
                   (Evaluate j le \<lparr> TLA_Data = ds ! k, TLA_CombinedData = None,
                                     TLA_Config = Node_Config n \<rparr> (Node_Node n))))
              (filter (\<lambda>n. \<not> Node_Combine n) lintFiles),
            map (\<lambda>n. Some (Evaluates_result j (Node_Key n)
                   (Evaluate j le \<lparr> TLA_Data = ds ! k, TLA_CombinedData = Some (JArray ds),
                                     TLA_Config = Node_Config n \<rparr> (Node_Node n))))
              (filter Node_Combine lintFiles)) \<and>
         (\<forall>p lintFile n. Parse p lintFile = Inr n \<longrightarrow>
            (Node_Combine n \<longleftrightarrow> (\<exists>pre. LintFile_Path lintFile = pre @ ''_combine.jsonnet'')))"
proof -
  have "Node_Combine n \<longleftrightarrow> (\<exists>pre. LintFile_Path lintFile = pre @ ''_combine.jsonnet'')"
    if "Parse p lintFile = Inr n" for p :: "'c LintFileParser" and lintFile n
    using that by (auto simp: Parse_def HasSuffix_iff split: sum.splits)
  then show ?thesis
    using assms by (simp add: evaluateTarget_def evaluateDataFile_def Evaluates_map combinedData_def)
qed

text \<open>
  C4 on two data files \<open>{"n": 1}\<close> and \<open>{"n": 2}\<close>, a plain rule and a combine rule: the
  output of the plain rule shows the argument without combined data, the output of the
  combine rule the argument with it.
\<close>

theorem combinedData_for_combine_rules_only_witness:
  "list_ex Node_Combine [run_node ''a.jsonnet'' ''[]'', run_node ''b_combine.jsonnet'' ''[]''] \<and>
   (1 :: nat) < length [JObject [(''n'', JNumber 1)], JObject [(''n'', JNumber 2)]] \<and>
   evaluateTarget run_json run_evaluator
     [run_node ''a.jsonnet'' ''[]'', run_node ''b_combine.jsonnet'' ''[]'']
     [JObject [(''n'', JNumber 1)], JObject [(''n'', JNumber 2)]] ! 1 =
     ([Some \<lparr> Result_LintFile = ''a.jsonnet'', Result_RawResult = [], RawOutput = ''[]plain'',
              Interface = JArray [], Result_Error = [] \<rparr>],
      [Some \<lparr> Result_LintFile = ''b_combine.jsonnet'', Result_RawResult = [],
              RawOutput = ''[]combined'', Interface = JArray [], Result_Error = [] \<rparr>]) \<and>
   Parse \<lparr> ReadToNode = (\<lambda>path. Inr path) \<rparr>
     \<lparr> LintFile_ID = ''b'', LintFile_Path = ''b_combine.jsonnet'', LintFile_Config = None \<rparr> =
     Inr \<lparr> Node_Node = ''b_combine.jsonnet'', Node_Key = ''b'', Node_Config = None,
           Node_Combine = True \<rparr>"
proof -
  let ?files = "[run_node ''a.jsonnet'' ''[]'', run_node ''b_combine.jsonnet'' ''[]'']"
  let ?ds = "[JObject [(''n'', JNumber 1)], JObject [(''n'', JNumber 2)]]"
  have c: "list_ex Node_Combine ?files"
    by (simp add: run_node_def HasSuffix_def)
  have k: "(1 :: nat) < length ?ds" by simp
  note inst = combinedData_for_combine_rules_only [OF c k, of run_json run_evaluator]
  have e: "evaluateTarget run_json run_evaluator ?files ?ds ! 1 =
     ([Some \<lparr> Result_LintFile = ''a.jsonnet'', Result_RawResult = [], RawOutput = ''[]plain'',
              Interface = JArray [], Result_Error = [] \<rparr>],
      [Some \<lparr> Result_LintFile = ''b_combine.jsonnet'', Result_RawResult = [],
              RawOutput = ''[]combined'', Interface = JArray [], Result_Error = [] \<rparr>])"
    unfolding inst [THEN conjunct1]
    by (simp add: run_defs HasSuffix_def Evaluates_result_def Evaluate_def parseResult_def)
  have p: "Parse \<lparr> ReadToNode = (\<lambda>path. Inr path) \<rparr>
     \<lparr> LintFile_ID = ''b'', LintFile_Path = ''b_combine.jsonnet'', LintFile_Config = None \<rparr> =
     Inr \<lparr> Node_Node = ''b_combine.jsonnet'', Node_Key = ''b'', Node_Config = None,
           Node_Combine = True \<rparr>"
    by (simp add: Parse_def HasSuffix_def)
  from c k e p show ?thesis by blast
qed

text \<open>
  C5. When the output \<open>s\<close> of the engine decodes to an untyped value \<open>v\<close> but not to a list
  of results, \<open>parseResult\<close> returns \<open>v\<close> together with the error, and the result that
  \<open>Evaluates\<close> stores for that lint file has the error, the value \<open>v\<close> and the raw output
  \<open>s\<close>.
\<close>

theorem shape_error_keeps_opaque_value:
  assumes "Unmarshal_any j s = Inr v" and "Unmarshal_results j s = Inl err"
  shows "parseResult j s = ([], v, Some (''unmarshal the result as JSON: '' @ err)) \<and>
         (\<forall>le tla lintFiles i.
            i < length lintFiles \<longrightarrow>
            Evaluate j le \<lparr> TLA_Data = TLA_Data tla, TLA_CombinedData = TLA_CombinedData tla,
                             TLA_Config = Node_Config (lintFiles ! i) \<rparr>
              (Node_Node (lintFiles ! i)) = Inr s \<longrightarrow>
            Evaluates j le tla lintFiles ! i =
              Some \<lparr> Result_LintFile = Node_Key (lintFiles ! i), Result_RawResult = [],
                     RawOutput = s, Interface = v,
                     Result_Error = ''unmarshal the result as JSON: '' @ err \<rparr>)"
  using assms by (simp add: parseResult_def Evaluates_map Evaluates_result_def)

text \<open>C5 on the small run: the output \<open>{}plain\<close> is an object and no list of results.\<close>

theorem shape_error_keeps_opaque_value_witness:
  "Unmarshal_any run_json ''{}plain'' = Inr (JObject []) \<and>
   Unmarshal_results run_json ''{}plain'' = Inl ''cannot unmarshal object'' \<and>
   parseResult run_json ''{}plain'' =
     ([], JObject [], Some ''unmarshal the result as JSON: cannot unmarshal object'') \<and>
   Evaluates run_json run_evaluator \<lparr> TLA_Data = JNull, TLA_CombinedData = None, TLA_Config = None \<rparr>
     [run_node ''a.jsonnet'' ''[]'', run_node ''b.jsonnet'' ''{}''] ! 1 =
     Some \<lparr> Result_LintFile = ''b.jsonnet'', Result_RawResult = [], RawOutput = ''{}plain'',
            Interface = JObject [],
            Result_Error = ''unmarshal the result as JSON: cannot unmarshal object'' \<rparr>"
proof -
  let ?tla = "\<lparr> TLA_Data = JNull, TLA_CombinedData = None, TLA_Config = None \<rparr>"
  let ?files = "[run_node ''a.jsonnet'' ''[]'', run_node ''b.jsonnet'' ''{}'']"
  have a: "Unmarshal_any run_json ''{}plain'' = Inr (JObject [])"
    and b: "Unmarshal_results run_json ''{}plain'' = Inl ''cannot unmarshal object''"
    by (simp_all add: run_json_def)
  note inst = shape_error_keeps_opaque_value [OF a b]
  have ev: "Evaluate run_json run_evaluator
      \<lparr> TLA_Data = TLA_Data ?tla, TLA_CombinedData = TLA_CombinedData ?tla,
        TLA_Config = Node_Config (?files ! 1) \<rparr> (Node_Node (?files ! 1)) = Inr ''{}plain''"
    by (simp add: run_defs Evaluate_def)
  have "(1 :: nat) < length ?files" by simp
  with inst ev have "Evaluates run_json run_evaluator ?tla ?files ! 1 =
     Some \<lparr> Result_LintFile = Node_Key (?files ! 1), Result_RawResult = [], RawOutput = ''{}plain'',
            Interface = JObject [],
            Result_Error = ''unmarshal the result as JSON: '' @ ''cannot unmarshal object'' \<rparr>"
    by blast
  then have e: "Evaluates run_json run_evaluator ?tla ?files ! 1 =
     Some \<lparr> Result_LintFile = ''b.jsonnet'', Result_RawResult = [], RawOutput = ''{}plain'',
            Interface = JObject [],
            Result_Error = ''unmarshal the result as JSON: cannot unmarshal object'' \<rparr>"
    by (simp add: run_node_def)
  from inst [THEN conjunct1] have p: "parseResult run_json ''{}plain'' =
     ([], JObject [], Some ''unmarshal the result as JSON: cannot unmarshal object'')"
    by simp
  from a b p e show ?thesis by blast
qed

section \<open>The error level\<close>

text \<open>
  C6. The empty error level gives the level \<open>errlevel.Error\<close>. When the error level of the
  parameter is not empty and \<open>errlevel.New\<close> rejects it, \<open>getErrorLevel\<close> returns that error
  and \<open>Lint\<close> returns an error without calling \<open>getResults\<close> (or \<open>Output\<close>): no lint file is
  evaluated; the error is the one of \<open>errlevel.New\<close> unless an earlier step has failed
  already. With the empty error level a run that reaches \<open>getErrorLevel\<close> goes on to
  \<open>getResults\<close>.
\<close>

theorem invalid_error_level_is_fatal:
  "getErrorLevel c [] = Inr (errlevel_Error c) \<and>
   (ErrorLevel param \<noteq> [] \<and> errlevel_New c (ErrorLevel param) = Inl err \<longrightarrow>
      getErrorLevel c (ErrorLevel param) = Inl err \<and>
      (\<exists>e. snd (Lint c param) = Some e) \<and>
      GetResults \<notin> set (fst (Lint c param)) \<and>
      CallOutput \<notin> set (fst (Lint c param)) \<and>
      (GetErrorLevel \<in> set (fst (Lint c param)) \<longrightarrow> snd (Lint c param) = Some err)) \<and>
   (ErrorLevel param = [] \<and> GetErrorLevel \<in> set (fst (Lint c param)) \<longrightarrow>
      GetResults \<in> set (fst (Lint c param)))"
proof (intro conjI impI)
  show "getErrorLevel c [] = Inr (errlevel_Error c)"
    by (simp add: getErrorLevel_def)
next
  assume a: "ErrorLevel param \<noteq> [] \<and> errlevel_New c (ErrorLevel param) = Inl err"
  then have g: "getErrorLevel c (ErrorLevel param) = Inl err"
    by (simp add: getErrorLevel_def)
  then show "getErrorLevel c (ErrorLevel param) = Inl err" .
  show "\<exists>e. snd (Lint c param) = Some e"
    by (simp add: Lint_def g Let_def split: sum.splits option.splits prod.splits)
  show "GetResults \<notin> set (fst (Lint c param))"
    by (simp add: Lint_def g Let_def split: sum.splits option.splits prod.splits)
  show "CallOutput \<notin> set (fst (Lint c param))"
    by (simp add: Lint_def g Let_def split: sum.splits option.splits prod.splits)
  show "snd (Lint c param) = Some err" if "GetErrorLevel \<in> set (fst (Lint c param))"
    using that by (auto simp: Lint_def g Let_def split: sum.splits option.splits prod.splits if_splits)
next
  assume "ErrorLevel param = [] \<and> GetErrorLevel \<in> set (fst (Lint c param))"
  then show "GetResults \<in> set (fst (Lint c param))"
    by (auto simp: Lint_def getErrorLevel_def Let_def
          split: sum.splits option.splits prod.splits if_splits)
qed

text \<open>
  C6 on the small run: the level \<open>critical\<close> stops the run after \<open>getErrorLevel\<close>; the
  empty level lets it run to the end.
\<close>

theorem invalid_error_level_is_fatal_witness:
  "ErrorLevel (run_param ''critical'') \<noteq> [] \<and>
   errlevel_New run_controller (ErrorLevel (run_param ''critical'')) = Inl ''invalid error level'' \<and>
   Lint run_controller (run_param ''critical'') =
     ([FindAndReadConfig, CallListModules, InstallModules, FindFiles, GetErrorLevel],
      Some ''invalid error level'') \<and>
   GetResults \<notin> set (fst (Lint run_controller (run_param ''critical''))) \<and>
   Lint run_controller (run_param []) =
     ([FindAndReadConfig, CallListModules, InstallModules, FindFiles, GetErrorLevel, GetResults,
       CallOutput], None)"
proof -
  have a: "ErrorLevel (run_param ''critical'') \<noteq> []"
    and b: "errlevel_New run_controller (ErrorLevel (run_param ''critical'')) =
              Inl ''invalid error level''"
    by (simp_all add: run_param_def run_controller_def)
  note inst = invalid_error_level_is_fatal
    [of run_controller "run_param ''critical''" "''invalid error level''",
      THEN conjunct2, THEN conjunct1, rule_format, OF conjI, OF a b]
  have calls: "fst (Lint run_controller (run_param ''critical'')) =
     [FindAndReadConfig, CallListModules, InstallModules, FindFiles, GetErrorLevel]"
    by (simp add: Lint_def getErrorLevel_def run_param_def run_controller_def)
  with inst have "snd (Lint run_controller (run_param ''critical'')) = Some ''invalid error level''"
    by simp
  with calls have l: "Lint run_controller (run_param ''critical'') =
     ([FindAndReadConfig, CallListModules, InstallModules, FindFiles, GetErrorLevel],
      Some ''invalid error level'')"
    by (simp add: prod_eq_iff)
  from inst have n: "GetResults \<notin> set (fst (Lint run_controller (run_param ''critical'')))"
    by blast
  have gr: "\<exists>m. getResults run_controller run_targets = Inr m"
    using getResults_loop_succeeds [of run_targets run_controller Map.empty]
    by (simp add: getResults_def run_targets_def run_controller_def)
  then have e: "Lint run_controller (run_param []) =
     ([FindAndReadConfig, CallListModules, InstallModules, FindFiles, GetErrorLevel, GetResults,
       CallOutput], None)"
    by (auto simp: Lint_def getErrorLevel_def run_param_def run_controller_def)
  from a b l n e show ?thesis by blast
qed

section \<open>The result map\<close>

text \<open>
  C9. When the lint files of every target can be read, \<open>getResults\<close> returns a map whose
  keys are exactly the data-file paths of the targets, one \<open>FileResult\<close> for each; the
  entry of a path is the one written for the last target that lists the path (the results
  of that target's nodes on the file, or the file's decoding error), whatever earlier
  targets wrote.
\<close>

theorem getResults_last_target_wins:
  assumes "\<forall>t\<in>set targets. \<exists>asts. readJsonnets c (LintFiles t) = Inr asts"
  shows "\<exists>m. getResults c targets = Inr m \<and>
           dom m = (\<Union>t\<in>set targets. set (DataFiles t)) \<and>
           (\<forall>ts1 t ts2 asts p.
              targets = ts1 @ t # ts2 \<longrightarrow> p \<in> set (DataFiles t) \<longrightarrow>
              (\<forall>t'\<in>set ts2. p \<notin> set (DataFiles t')) \<longrightarrow>
              readJsonnets c (LintFiles t) = Inr asts \<longrightarrow>
              m p = Some (lintTarget_result c asts p))"
proof -
  from assms obtain m where m: "getResults_loop c targets Map.empty = Inr m"
    using getResults_loop_succeeds by blast
  have d: "dom m = (\<Union>t\<in>set targets. set (DataFiles t))"
    using getResults_loop_dom [OF m] by simp
  have "m p = Some (lintTarget_result c asts p)"
    if "targets = ts1 @ t # ts2" "p \<in> set (DataFiles t)"
      "\<forall>t'\<in>set ts2. p \<notin> set (DataFiles t')" "readJsonnets c (LintFiles t) = Inr asts"
    for ts1 t ts2 asts p
    using getResults_loop_last [OF m [unfolded that(1)] that(2,3,4)] .
  with m d show ?thesis
    unfolding getResults_def by blast
qed

text \<open>
  C9 on the small run: \<open>x.json\<close> is a data file of both targets, and its entry holds the
  result of the second target's lint file \<open>b.jsonnet\<close> only.
\<close>

theorem getResults_last_target_wins_witness:
  "readJsonnets run_controller [''error.jsonnet'', ''a.jsonnet''] =
     Inr [\<lparr> lint_Node_Node = ''error.jsonnet'', lint_Node_Custom = None, lint_Node_Key = ''error.jsonnet'' \<rparr>,
          \<lparr> lint_Node_Node = ''a.jsonnet'', lint_Node_Custom = None, lint_Node_Key = ''a.jsonnet'' \<rparr>] \<and>
   readJsonnets run_controller [''b.jsonnet''] =
     Inr [\<lparr> lint_Node_Node = ''b.jsonnet'', lint_Node_Custom = None, lint_Node_Key = ''b.jsonnet'' \<rparr>] \<and>
   (\<exists>m. getResults run_controller run_targets = Inr m \<and>
      dom m = {''x.json'', ''y.json'', ''bad.json''} \<and>
      m ''x.json'' =
        Some \<lparr> FileResult_Results =
                 [Some (Some \<lparr> JER_Key = ''b.jsonnet'', JER_Result = ''b.jsonnet x.json'',
                                JER_Error = [] \<rparr>)],
               FileResult_Error = [] \<rparr>)"
proof -
  let ?t1 = "\<lparr> LintFiles = [''error.jsonnet'', ''a.jsonnet''], DataFiles = [''x.json'', ''y.json''] \<rparr>"
  let ?t2 = "\<lparr> LintFiles = [''b.jsonnet''], DataFiles = [''bad.json'', ''x.json''] \<rparr>"
  let ?b = "[\<lparr> lint_Node_Node = ''b.jsonnet'', lint_Node_Custom = None, lint_Node_Key = ''b.jsonnet'' \<rparr>]"
  have r1: "readJsonnets run_controller [''error.jsonnet'', ''a.jsonnet''] =
     Inr [\<lparr> lint_Node_Node = ''error.jsonnet'', lint_Node_Custom = None, lint_Node_Key = ''error.jsonnet'' \<rparr>,
          \<lparr> lint_Node_Node = ''a.jsonnet'', lint_Node_Custom = None, lint_Node_Key = ''a.jsonnet'' \<rparr>]"
    and r2: "readJsonnets run_controller [''b.jsonnet''] = Inr ?b"
    by (simp_all add: run_controller_def)
  have readable: "\<forall>t\<in>set run_targets. \<exists>asts. readJsonnets run_controller (LintFiles t) = Inr asts"
    using r1 r2 by (simp add: run_targets_def)
  from getResults_last_target_wins [OF readable]
  obtain m where all: "getResults run_controller run_targets = Inr m \<and>
           dom m = (\<Union>t\<in>set run_targets. set (DataFiles t)) \<and>
           (\<forall>ts1 t ts2 asts p.
              run_targets = ts1 @ t # ts2 \<longrightarrow> p \<in> set (DataFiles t) \<longrightarrow>
              (\<forall>t'\<in>set ts2. p \<notin> set (DataFiles t')) \<longrightarrow>
              readJsonnets run_controller (LintFiles t) = Inr asts \<longrightarrow>
              m p = Some (lintTarget_result run_controller asts p))" ..
  from all have m: "getResults run_controller run_targets = Inr m"
    by (rule conjunct1)
  from all have d: "dom m = (\<Union>t\<in>set run_targets. set (DataFiles t))"
    by (rule conjunct2 [THEN conjunct1])
  note last = all [THEN conjunct2, THEN conjunct2, rule_format]
  from d have d': "dom m = {''x.json'', ''y.json'', ''bad.json''}"
    by (auto simp: run_targets_def)
  have "m ''x.json'' = Some (lintTarget_result run_controller ?b ''x.json'')"
    using last [of "[?t1]" ?t2 "[]" "''x.json''" ?b] r2 by (simp add: run_targets_def)
  also have "lintTarget_result run_controller ?b ''x.json'' =
      \<lparr> FileResult_Results =
                 [Some (Some \<lparr> JER_Key = ''b.jsonnet'', JER_Result = ''b.jsonnet x.json'',
                                JER_Error = [] \<rparr>)],
               FileResult_Error = [] \<rparr>"
  proof -
    have "parseDataFile run_controller ''x.json'' = Inr ''x.json''"
      by (simp add: run_controller_def)
    then have "lint run_controller ''x.json'' ?b =
        Inr (map (\<lambda>ja. Some (Controller_parseResult run_controller
                                (Some (evaluateNode run_controller ''x.json'' ja)))) ?b)"
      by (rule lint_Inr)
    then show ?thesis
      by (simp add: lintTarget_result_def evaluateNode_def run_controller_def)
  qed
  finally have x: "m ''x.json'' =
        Some \<lparr> FileResult_Results =
                 [Some (Some \<lparr> JER_Key = ''b.jsonnet'', JER_Result = ''b.jsonnet x.json'',
                                JER_Error = [] \<rparr>)],
               FileResult_Error = [] \<rparr>" .
  from r1 r2 m d' x show ?thesis by blast
qed

text \<open>
  C10. \<open>Evaluates\<close> returns as many results as there are lint files, none of them \<open>nil\<close>;
  the \<open>i\<close>-th result has the key of the \<open>i\<close>-th lint file and carries the error of
  \<open>Evaluate\<close> (which is not empty) or the output of \<open>Evaluate\<close> with the value decoded from
  it. \<open>Evaluates\<close> is a total function: it has no error to return. The same holds for
  \<open>evaluate\<close> of the controller: one result of \<open>evaluateNode\<close> per node, in order, with
  the node's key, and with an empty result or an empty error.
\<close>

theorem one_result_per_lint_file:
  "length (Evaluates j le tla lintFiles) = length lintFiles \<and>
   (\<forall>i<length lintFiles.
      \<exists>r. Evaluates j le tla lintFiles ! i = Some r \<and>
          Result_LintFile r = Node_Key (lintFiles ! i) \<and>
          ((\<exists>err. Evaluate j le \<lparr> TLA_Data = TLA_Data tla, TLA_CombinedData = TLA_CombinedData tla,
                                  TLA_Config = Node_Config (lintFiles ! i) \<rparr>
                     (Node_Node (lintFiles ! i)) = Inl err \<and>
                  Result_Error r = err \<and> err \<noteq> []) \<or>
           (\<exists>s. Evaluate j le \<lparr> TLA_Data = TLA_Data tla, TLA_CombinedData = TLA_CombinedData tla,
                                TLA_Config = Node_Config (lintFiles ! i) \<rparr>
                   (Node_Node (lintFiles ! i)) = Inr s \<and>
                RawOutput r = s \<and> Interface r = fst (snd (parseResult j s))))) \<and>
   length (evaluate c data jsonnetAsts) = length jsonnetAsts \<and>
   (\<forall>i<length jsonnetAsts.
      \<exists>r. evaluate c data jsonnetAsts ! i = Some r \<and>
          r = evaluateNode c data (jsonnetAsts ! i) \<and>
          JER_Key r = lint_Node_Key (jsonnetAsts ! i) \<and>
          (JER_Result r = [] \<or> JER_Error r = []))"
proof (intro conjI allI impI)
  show "length (Evaluates j le tla lintFiles) = length lintFiles"
    by (simp add: Evaluates_map)
  show "length (evaluate c data jsonnetAsts) = length jsonnetAsts"
    by (simp add: evaluate_map)
next
  fix i assume i: "i < length lintFiles"
  let ?ev = "Evaluate j le \<lparr> TLA_Data = TLA_Data tla, TLA_CombinedData = TLA_CombinedData tla,
                              TLA_Config = Node_Config (lintFiles ! i) \<rparr> (Node_Node (lintFiles ! i))"
  have nonempty: "err \<noteq> []" if "?ev = Inl err" for err
    using that by (auto simp: Evaluate_def Let_def split: sum.splits)
  show "\<exists>r. Evaluates j le tla lintFiles ! i = Some r \<and>
          Result_LintFile r = Node_Key (lintFiles ! i) \<and>
          ((\<exists>err. ?ev = Inl err \<and> Result_Error r = err \<and> err \<noteq> []) \<or>
           (\<exists>s. ?ev = Inr s \<and> RawOutput r = s \<and> Interface r = fst (snd (parseResult j s))))"
  proof (cases ?ev)
    case (Inl err)
    with i nonempty [OF Inl] show ?thesis
      by (simp add: Evaluates_map Evaluates_result_def)
  next
    case (Inr s)
    with i show ?thesis
      by (simp add: Evaluates_map Evaluates_result_def Let_def split: prod.splits option.splits)
  qed
next
  fix i assume i: "i < length jsonnetAsts"
  have "JER_Key (evaluateNode c data ja) = lint_Node_Key ja \<and>
        (JER_Result (evaluateNode c data ja) = [] \<or> JER_Error (evaluateNode c data ja) = [])" for ja
    by (simp add: evaluateNode_def Let_def split: sum.splits)
  with i show "\<exists>r. evaluate c data jsonnetAsts ! i = Some r \<and>
          r = evaluateNode c data (jsonnetAsts ! i) \<and>
          JER_Key r = lint_Node_Key (jsonnetAsts ! i) \<and>
          (JER_Result r = [] \<or> JER_Error r = [])"
    by (simp add: evaluate_map)
qed

text \<open>C10 on the small run: two lint files, the first of which fails.\<close>

theorem one_result_per_lint_file_witness:
  "length (Evaluates run_json run_evaluator
             \<lparr> TLA_Data = JNull, TLA_CombinedData = None, TLA_Config = None \<rparr>
             [run_node ''e.jsonnet'' ''error'', run_node ''a.jsonnet'' ''[]'']) = 2 \<and>
   (\<exists>r. Evaluates run_json run_evaluator
           \<lparr> TLA_Data = JNull, TLA_CombinedData = None, TLA_Config = None \<rparr>
           [run_node ''e.jsonnet'' ''error'', run_node ''a.jsonnet'' ''[]''] ! 0 = Some r \<and>
        Result_LintFile r = ''e.jsonnet'' \<and>
        Result_Error r = ''evaluate a lint file as Jsonnet: RUNTIME ERROR'') \<and>
   (\<exists>r. Evaluates run_json run_evaluator
           \<lparr> TLA_Data = JNull, TLA_CombinedData = None, TLA_Config = None \<rparr>
           [run_node ''e.jsonnet'' ''error'', run_node ''a.jsonnet'' ''[]''] ! 1 = Some r \<and>
        Result_LintFile r = ''a.jsonnet'' \<and> RawOutput r = ''[]plain'') \<and>
   length (evaluate run_controller ''x.json''
             [\<lparr> lint_Node_Node = ''error.jsonnet'', lint_Node_Custom = None,
                lint_Node_Key = ''error.jsonnet'' \<rparr>,
              \<lparr> lint_Node_Node = ''a.jsonnet'', lint_Node_Custom = None,
                lint_Node_Key = ''a.jsonnet'' \<rparr>]) = 2 \<and>
   evaluate run_controller ''x.json''
     [\<lparr> lint_Node_Node = ''error.jsonnet'', lint_Node_Custom = None,
        lint_Node_Key = ''error.jsonnet'' \<rparr>,
      \<lparr> lint_Node_Node = ''a.jsonnet'', lint_Node_Custom = None,
        lint_Node_Key = ''a.jsonnet'' \<rparr>] ! 1 =
     Some \<lparr> JER_Key = ''a.jsonnet'', JER_Result = ''a.jsonnet x.json'', JER_Error = [] \<rparr>"
proof -
  let ?tla = "\<lparr> TLA_Data = JNull, TLA_CombinedData = None, TLA_Config = None \<rparr>"
  let ?files = "[run_node ''e.jsonnet'' ''error'', run_node ''a.jsonnet'' ''[]'']"
  let ?asts = "[\<lparr> lint_Node_Node = ''error.jsonnet'', lint_Node_Custom = None,
                  lint_Node_Key = ''error.jsonnet'' \<rparr>,
                \<lparr> lint_Node_Node = ''a.jsonnet'', lint_Node_Custom = None,
                  lint_Node_Key = ''a.jsonnet'' \<rparr>]"
  note inst = one_result_per_lint_file
    [of run_json run_evaluator ?tla ?files run_controller "''x.json''" ?asts]
  note len1 = inst [THEN conjunct1]
  note each1 = inst [THEN conjunct2, THEN conjunct1, rule_format]
  note len2 = inst [THEN conjunct2, THEN conjunct2, THEN conjunct1]
  note each2 = inst [THEN conjunct2, THEN conjunct2, THEN conjunct2, rule_format]
  have e0: "Evaluate run_json run_evaluator
      \<lparr> TLA_Data = TLA_Data ?tla, TLA_CombinedData = TLA_CombinedData ?tla,
        TLA_Config = Node_Config (?files ! 0) \<rparr> (Node_Node (?files ! 0)) =
      Inl ''evaluate a lint file as Jsonnet: RUNTIME ERROR''"
    and e1: "Evaluate run_json run_evaluator
      \<lparr> TLA_Data = TLA_Data ?tla, TLA_CombinedData = TLA_CombinedData ?tla,
        TLA_Config = Node_Config (?files ! 1) \<rparr> (Node_Node (?files ! 1)) = Inr ''[]plain''"
    by (simp_all add: run_defs Evaluate_def)
  have l1: "length (Evaluates run_json run_evaluator ?tla ?files) = 2"
    using len1 by simp
  have r0: "\<exists>r. Evaluates run_json run_evaluator ?tla ?files ! 0 = Some r \<and>
        Result_LintFile r = ''e.jsonnet'' \<and>
        Result_Error r = ''evaluate a lint file as Jsonnet: RUNTIME ERROR''"
    using each1 [of 0] e0 by (auto simp: run_node_def)
  have r1: "\<exists>r. Evaluates run_json run_evaluator ?tla ?files ! 1 = Some r \<and>
        Result_LintFile r = ''a.jsonnet'' \<and> RawOutput r = ''[]plain''"
    using each1 [of 1] e1 by (auto simp: run_node_def)
  have l2: "length (evaluate run_controller ''x.json'' ?asts) = 2"
    using len2 by simp
  have r2: "evaluate run_controller ''x.json'' ?asts ! 1 =
     Some \<lparr> JER_Key = ''a.jsonnet'', JER_Result = ''a.jsonnet x.json'', JER_Error = [] \<rparr>"
    using each2 [of 1] by (auto simp: evaluateNode_def run_controller_def)
  from l1 r0 r1 l2 r2 show ?thesis by blast
qed

end
